theory Spec2Isabelle
  imports Main "HOL-Library.Word" "HOL-Library.Multiset"
begin

unbundle bit_operations_syntax

section \<open>Data model (level.go)\<close>

text \<open>
  A \<open>driver.Value\<close> is one of the scalar shapes a database driver hands out:
  \<open>nil\<close>, \<open>int64\<close>, \<open>float64\<close> (kept as its 64 bits), \<open>bool\<close>,
  \<open>[]byte\<close>, \<open>string\<close> and \<open>time.Time\<close> (an instant in nanoseconds).
\<close>

datatype Value =
    VNil
  | VInt64 "64 word"
  | VFloat64 "64 word"
  | VBool bool
  | VBytes "8 word list"
  | VString string
  | VTime int

text \<open>\<open>Entry\<close>: the struct \<open>{Columns []string; Values [][]driver.Value}\<close>.\<close>

record Entry =
  Columns :: "string list"
  Values :: "Value list list"

text \<open>
  \<open>Key\<close> is \<open>any\<close> comparable Go value. The shapes that occur in the repository are
  modelled: the \<open>nil\<close> interface (the zero value of \<open>ctxOptions.key\<close>), the \<open>uint64\<close>
  of the default hasher, an \<open>int\<close> and a \<open>string\<close> (both used by the tests).
\<close>

datatype Key =
    KeyNil
  | KeyUint64 "64 word"
  | KeyInt int
  | KeyString string

text \<open>\<open>time.Duration\<close> is an \<open>int64\<close> of nanoseconds, read with \<open>sint\<close>.\<close>

type_synonym Duration = "64 word"

text \<open>
  Errors as values. \<open>ErrNotFound\<close> and \<open>errSkip\<close> are the package's sentinels;
  \<open>InvalidRowsType\<close> and \<open>InvalidArgsType\<close> are the two \<open>fmt.Errorf\<close> results of
  \<open>Driver.Query\<close>; \<open>ErrNoRows\<close> is \<open>database/sql.ErrNoRows\<close>; \<open>RedisNil\<close> is
  \<open>redis.Nil\<close>; \<open>External\<close> stands for any error produced outside the package
  (the wrapped driver, the remote service, the codec); \<open>Panic\<close> is a Go run-time
  panic, kept as a result so that it is a branch of the model.
\<close>

datatype error =
    ErrNotFound
  | errSkip
  | InvalidRowsType
  | InvalidArgsType
  | ErrNoRows
  | ColumnTypesNotSupported
  | RedisNil
  | External string
  | Panic string

subsection \<open>Entry codec\<close>

text \<open>
  \<open>Entry.MarshalBinary\<close> and \<open>Entry.UnmarshalBinary\<close> hand the anonymous struct
  \<open>{C []string; V [][]driver.Value}\<close> to \<open>encoding/gob\<close>. The gob encoder and decoder
  belong to the Go standard library, not to this package: they are a parameter here, a
  record of two functions on the pair \<open>(C, V)\<close>.
\<close>

record gob =
  Encode :: "string list \<times> Value list list \<Rightarrow> error + 8 word list"
  Decode :: "8 word list \<Rightarrow> error + string list \<times> Value list list"

definition MarshalBinary :: "gob \<Rightarrow> Entry \<Rightarrow> error + 8 word list" where
  "MarshalBinary g e =
     (case Encode g (Columns e, Values e) of
        Inl err \<Rightarrow> Inl err
      | Inr buf \<Rightarrow> Inr buf)"

definition UnmarshalBinary :: "gob \<Rightarrow> 8 word list \<Rightarrow> error + Entry" where
  "UnmarshalBinary g buf =
     (case Decode g buf of
        Inl err \<Rightarrow> Inl err
      | Inr (c, v) \<Rightarrow> Inr \<lparr>Columns = c, Values = v\<rparr>)"

section \<open>The LRU tier\<close>

subsection \<open>The wrapped \<open>lru.Cache\<close>\<close>

text \<open>
  What the LRU tier keeps under a key: a bare \<open>*Entry\<close> (stored when \<open>ttl = 0\<close>) or an
  \<open>*entry\<close>, the \<open>Entry\<close> with its absolute expiry instant. The \<open>default\<close> branch of
  the type switch in \<open>LRU.Get\<close> has no counterpart: the datatype has no third shape.
\<close>

datatype cached =
    Bare Entry
  | Expiring Entry int

text \<open>
  Modelled from the spec: the bounded cache \<open>lru.Cache\<close> that \<open>LRU\<close> embeds
  (\<open>github.com/golang/groupcache/lru\<close>, a dependency whose code is not among the
  sources). The spec: a bounded cache keyed by \<open>Key\<close>, entries destroyed by eviction at
  capacity, a capacity of zero unbounded, a negative capacity a no-op (all adds
  discarded, all gets miss). Here: a list of key/value pairs, most recently used first,
  with \<open>MaxEntries\<close> the capacity. \<open>Add\<close> overwrites and moves an existing key to the
  front, otherwise pushes to the front and removes the oldest pair when the length
  exceeds a non-zero \<open>MaxEntries\<close>; \<open>Get\<close> moves a hit to the front; \<open>Remove\<close> drops
  the key.
\<close>

record lru_Cache =
  MaxEntries :: int
  ll :: "(Key \<times> cached) list"

definition lru_New :: "int \<Rightarrow> lru_Cache" where
  "lru_New maxEntries = \<lparr>MaxEntries = maxEntries, ll = []\<rparr>"

definition lru_Add :: "lru_Cache \<Rightarrow> Key \<Rightarrow> cached \<Rightarrow> lru_Cache" where
  "lru_Add c k v =
     (case map_of (ll c) k of
        Some _ \<Rightarrow> c\<lparr>ll := (k, v) # filter (\<lambda>p. fst p \<noteq> k) (ll c)\<rparr>
      | None \<Rightarrow>
          (let l = (k, v) # ll c
           in if MaxEntries c \<noteq> 0 \<and> int (length l) > MaxEntries c
              then c\<lparr>ll := butlast l\<rparr>
              else c\<lparr>ll := l\<rparr>))"

definition lru_Get :: "lru_Cache \<Rightarrow> Key \<Rightarrow> cached option \<times> lru_Cache" where
  "lru_Get c k =
     (case map_of (ll c) k of
        None \<Rightarrow> (None, c)
      | Some v \<Rightarrow> (Some v, c\<lparr>ll := (k, v) # filter (\<lambda>p. fst p \<noteq> k) (ll c)\<rparr>))"

definition lru_Remove :: "lru_Cache \<Rightarrow> Key \<Rightarrow> lru_Cache" where
  "lru_Remove c k = c\<lparr>ll := filter (\<lambda>p. fst p \<noteq> k) (ll c)\<rparr>"

subsection \<open>\<open>LRU.Add\<close>, \<open>LRU.Get\<close>, \<open>LRU.Del\<close>\<close>

text \<open>
  The mutex of the \<open>LRU\<close> struct is not modelled: the operations are taken one at a
  time. \<open>time.Now()\<close> is the extra argument \<open>now\<close>, an instant in nanoseconds, and
  \<open>time.Now().Add(ttl)\<close> is \<open>now + sint ttl\<close>.
\<close>

definition NewLRU :: "int \<Rightarrow> lru_Cache" where
  "NewLRU maxEntries = lru_New maxEntries"

definition LRU_Add ::
  "gob \<Rightarrow> lru_Cache \<Rightarrow> Key \<Rightarrow> Entry \<Rightarrow> Duration \<Rightarrow> int \<Rightarrow> error option \<times> lru_Cache" where
  "LRU_Add g l k e d now =
     (case MarshalBinary g e of
        Inl err \<Rightarrow> (Some err, l)
      | Inr buf \<Rightarrow>
          (case UnmarshalBinary g buf of
             Inl err \<Rightarrow> (Some err, l)
           | Inr ne \<Rightarrow>
               if d = 0 then (None, lru_Add l k (Bare ne))
               else (None, lru_Add l k (Expiring ne (now + sint d)))))"

definition LRU_Get :: "lru_Cache \<Rightarrow> Key \<Rightarrow> int \<Rightarrow> (error + Entry) \<times> lru_Cache" where
  "LRU_Get l k now =
     (case lru_Get l k of
        (None, l') \<Rightarrow> (Inl ErrNotFound, l')
      | (Some (Bare e), l') \<Rightarrow> (Inr e, l')
      | (Some (Expiring e expiry), l') \<Rightarrow>
          if now < expiry then (Inr e, l')
          else (Inl ErrNotFound, lru_Remove l' k))"

definition LRU_Del :: "lru_Cache \<Rightarrow> Key \<Rightarrow> error option \<times> lru_Cache" where
  "LRU_Del l k = (None, lru_Remove l k)"

section \<open>Call context and ambient options (context.go)\<close>

text \<open>
  \<open>ctxOptions\<close> is the per-call record; its zero value is \<open>ctxOptions_zero\<close>. A
  \<open>context.Context\<close> is modelled by the one thing the driver reads from it: the value
  stored under \<open>ctxOptionsKey\<close>, if any. In Go the helpers mutate the record a context
  already carries through its pointer; here they return the context with the updated
  record.
\<close>

record ctxOptions =
  skip :: bool
  evict :: bool
  key :: Key
  ttl :: Duration

definition ctxOptions_zero :: ctxOptions where
  "ctxOptions_zero = \<lparr>skip = False, evict = False, key = KeyNil, ttl = 0\<rparr>"

record Context =
  ctxOptionsKey :: "ctxOptions option"

definition Background :: Context where
  "Background = \<lparr>ctxOptionsKey = None\<rparr>"

definition Skip :: "Context \<Rightarrow> Context" where
  "Skip ctx =
     (case ctxOptionsKey ctx of
        None \<Rightarrow> ctx\<lparr>ctxOptionsKey := Some (ctxOptions_zero\<lparr>skip := True\<rparr>)\<rparr>
      | Some c \<Rightarrow> ctx\<lparr>ctxOptionsKey := Some (c\<lparr>skip := True\<rparr>)\<rparr>)"

definition Evict :: "Context \<Rightarrow> Context" where
  "Evict ctx =
     (case ctxOptionsKey ctx of
        None \<Rightarrow> ctx\<lparr>ctxOptionsKey := Some (ctxOptions_zero\<lparr>skip := True, evict := True\<rparr>)\<rparr>
      | Some c \<Rightarrow> ctx\<lparr>ctxOptionsKey := Some (c\<lparr>skip := True, evict := True\<rparr>)\<rparr>)"

definition WithKey :: "Context \<Rightarrow> Key \<Rightarrow> Context" where
  "WithKey ctx k =
     (case ctxOptionsKey ctx of
        None \<Rightarrow> ctx\<lparr>ctxOptionsKey := Some (ctxOptions_zero\<lparr>key := k\<rparr>)\<rparr>
      | Some c \<Rightarrow> ctx\<lparr>ctxOptionsKey := Some (c\<lparr>key := k\<rparr>)\<rparr>)"

definition WithTTL :: "Context \<Rightarrow> Duration \<Rightarrow> Context" where
  "WithTTL ctx d =
     (case ctxOptionsKey ctx of
        None \<Rightarrow> ctx\<lparr>ctxOptionsKey := Some (ctxOptions_zero\<lparr>ttl := d\<rparr>)\<rparr>
      | Some c \<Rightarrow> ctx\<lparr>ctxOptionsKey := Some (c\<lparr>ttl := d\<rparr>)\<rparr>)"

section \<open>The cache-store interface\<close>

text \<open>
  \<open>AddGetDeleter\<close> is an interface: any implementation is a triple of operations. Each
  one may read and change the world outside the driver (the store's memory, a remote
  service), so it is a function from the state \<open>'s\<close> of that world to a result and the
  new state.
\<close>

record 's AddGetDeleter =
  Del :: "Context \<Rightarrow> Key \<Rightarrow> 's \<Rightarrow> error option \<times> 's"
  Add :: "Context \<Rightarrow> Key \<Rightarrow> Entry \<Rightarrow> Duration \<Rightarrow> 's \<Rightarrow> error option \<times> 's"
  Get :: "Context \<Rightarrow> Key \<Rightarrow> 's \<Rightarrow> (error + Entry) \<times> 's"

section \<open>The remote tier\<close>

text \<open>
  Modelled from the spec: the textual formatter of keys (\<open>fmt.Sprint\<close> of the Go
  standard library). \<open>nil\<close> prints as \<open><nil>\<close>, an integer in decimal, a string as
  itself.
\<close>

fun decimal :: "nat \<Rightarrow> string" where
  "decimal n =
     (if n < 10 then [char_of (48 + n)]
      else decimal (n div 10) @ [char_of (48 + n mod 10)])"

declare decimal.simps [simp del]

definition Sprint :: "Key \<Rightarrow> string" where
  "Sprint k =
     (case k of
        KeyNil \<Rightarrow> ''<nil>''
      | KeyUint64 w \<Rightarrow> decimal (unat w)
      | KeyInt i \<Rightarrow> (if i < 0 then CHR ''-'' # decimal (nat (- i)) else decimal (nat i))
      | KeyString str \<Rightarrow> str)"

text \<open>
  \<open>redis.Cmdable\<close> is the client of the remote service; the three commands the tier
  issues are its fields. \<open>Cmd_Set\<close> is \<open>c.Set(ctx, key, buf, ttl).Err()\<close>, \<open>Cmd_Get\<close> is
  \<open>c.Get(ctx, key).Bytes()\<close> and \<open>Cmd_Del\<close> is \<open>c.Del(ctx, key).Err()\<close>.
\<close>

record 's Cmdable =
  Cmd_Set :: "Context \<Rightarrow> string \<Rightarrow> 8 word list \<Rightarrow> Duration \<Rightarrow> 's \<Rightarrow> error option \<times> 's"
  Cmd_Get :: "Context \<Rightarrow> string \<Rightarrow> 's \<Rightarrow> (error + 8 word list) \<times> 's"
  Cmd_Del :: "Context \<Rightarrow> string \<Rightarrow> 's \<Rightarrow> error option \<times> 's"

definition Redis_Add ::
  "gob \<Rightarrow> 's Cmdable \<Rightarrow> Context \<Rightarrow> Key \<Rightarrow> Entry \<Rightarrow> Duration \<Rightarrow> 's \<Rightarrow> error option \<times> 's" where
  "Redis_Add g c ctx k e d s =
     (let str = Sprint k
      in if str = [] then (None, s)
         else (case MarshalBinary g e of
                 Inl err \<Rightarrow> (Some err, s)
               | Inr buf \<Rightarrow>
                   (case Cmd_Set c ctx str buf d s of
                      (Some err, s') \<Rightarrow> (Some err, s')
                    | (None, s') \<Rightarrow> (None, s'))))"

definition Redis_Get ::
  "gob \<Rightarrow> 's Cmdable \<Rightarrow> Context \<Rightarrow> Key \<Rightarrow> 's \<Rightarrow> (error + Entry) \<times> 's" where
  "Redis_Get g c ctx k s =
     (let str = Sprint k
      in if str = [] then (Inl ErrNotFound, s)
         else (case Cmd_Get c ctx str s of
                 (Inl err, s') \<Rightarrow> (Inl ErrNotFound, s')
               | (Inr buf, s') \<Rightarrow>
                   if length buf = 0 then (Inl ErrNotFound, s')
                   else (case UnmarshalBinary g buf of
                           Inl err \<Rightarrow> (Inl err, s')
                         | Inr e \<Rightarrow> (Inr e, s'))))"

definition Redis_Del :: "'s Cmdable \<Rightarrow> Context \<Rightarrow> Key \<Rightarrow> 's \<Rightarrow> error option \<times> 's" where
  "Redis_Del c ctx k s =
     (let str = Sprint k
      in if str = [] then (None, s)
         else Cmd_Del c ctx str s)"

definition NewRedis :: "gob \<Rightarrow> 's Cmdable \<Rightarrow> 's AddGetDeleter" where
  "NewRedis g c = \<lparr>Del = Redis_Del c, Add = Redis_Add g c, Get = Redis_Get g c\<rparr>"

section \<open>The multi-tier composer\<close>

text \<open>The three loops over \<open>m.levels\<close>, each leaving at the first \<open>return\<close>.\<close>

fun multiLevel_Add ::
  "'s AddGetDeleter list \<Rightarrow> Context \<Rightarrow> Key \<Rightarrow> Entry \<Rightarrow> Duration \<Rightarrow> 's \<Rightarrow> error option \<times> 's" where
  "multiLevel_Add [] ctx k e d s = (None, s)"
| "multiLevel_Add (l # levels) ctx k e d s =
     (case Add l ctx k e d s of
        (Some err, s') \<Rightarrow> (Some err, s')
      | (None, s') \<Rightarrow> multiLevel_Add levels ctx k e d s')"

fun multiLevel_Get ::
  "'s AddGetDeleter list \<Rightarrow> Context \<Rightarrow> Key \<Rightarrow> 's \<Rightarrow> (error + Entry) \<times> 's" where
  "multiLevel_Get [] ctx k s = (Inl ErrNotFound, s)"
| "multiLevel_Get (l # levels) ctx k s =
     (case Get l ctx k s of
        (Inr e, s') \<Rightarrow> (Inr e, s')
      | (Inl err, s') \<Rightarrow>
          if err \<noteq> ErrNotFound then (Inl err, s')
          else multiLevel_Get levels ctx k s')"

fun multiLevel_Del ::
  "'s AddGetDeleter list \<Rightarrow> Context \<Rightarrow> Key \<Rightarrow> 's \<Rightarrow> error option \<times> 's" where
  "multiLevel_Del [] ctx k s = (None, s)"
| "multiLevel_Del (l # levels) ctx k s =
     (case Del l ctx k s of
        (Some err, s') \<Rightarrow> (Some err, s')
      | (None, s') \<Rightarrow> multiLevel_Del levels ctx k s')"

definition multiLevel :: "'s AddGetDeleter list \<Rightarrow> 's AddGetDeleter" where
  "multiLevel levels =
     \<lparr>Del = multiLevel_Del levels, Add = multiLevel_Add levels, Get = multiLevel_Get levels\<rparr>"

section \<open>The driver decorator (driver.go)\<close>

subsection \<open>Row streams\<close>

text \<open>
  \<open>sql.ColumnScanner\<close> is the interface of the row stream that the wrapped driver
  leaves in \<open>*sql.Rows\<close>. Its methods act on the world \<open>'s\<close> (the connection and the
  cursor live there). \<open>cs_Scan n\<close> is \<open>Scan\<close> called with \<open>n\<close> destinations that all
  implement \<open>sql.Scanner\<close>: it returns the error of the call and the source values it
  handed, in order, to the destinations' \<open>Scan\<close> method.
\<close>

record 's ColumnScanner =
  cs_Close :: "'s \<Rightarrow> error option \<times> 's"
  cs_Columns :: "'s \<Rightarrow> (error + string list) \<times> 's"
  cs_Err :: "'s \<Rightarrow> error option"
  cs_Next :: "'s \<Rightarrow> bool \<times> 's"
  cs_Scan :: "nat \<Rightarrow> 's \<Rightarrow> (error option \<times> Value list) \<times> 's"

text \<open>\<open>Stats\<close>: three \<open>uint64\<close> counters; \<open>atomic.AddUint64\<close> wraps around.\<close>

record Stats =
  Gets :: "64 word"
  Hits :: "64 word"
  Errors :: "64 word"

definition Stats_zero :: Stats where
  "Stats_zero = \<lparr>Gets = 0, Hits = 0, Errors = 0\<rparr>"

subsection \<open>\<open>rawCopy\<close>\<close>

text \<open>
  \<open>rawCopy.Scan\<close> writes the source into the first slot of its window of the buffer and
  moves the window on; a \<open>[]byte\<close> is copied first (an equal value here). The buffer is
  the pair of the slots already written and the window still to fill. Writing to an
  empty window is Go's index-out-of-range panic.
\<close>

definition rawCopy_Scan :: "Value list \<times> Value list \<Rightarrow> Value \<Rightarrow> error + Value list \<times> Value list" where
  "rawCopy_Scan c src =
     (let src' = (case src of VBytes b \<Rightarrow> VBytes (map (\<lambda>x. x) b) | _ \<Rightarrow> src)
      in case snd c of
           [] \<Rightarrow> Inl (Panic ''index out of range'')
         | v # rest \<Rightarrow> Inr (fst c @ [src'], rest))"

fun rawCopy_Scans :: "Value list \<times> Value list \<Rightarrow> Value list \<Rightarrow> error + Value list \<times> Value list" where
  "rawCopy_Scans c [] = Inr c"
| "rawCopy_Scans c (src # srcs) =
     (case rawCopy_Scan c src of
        Inl err \<Rightarrow> Inl err
      | Inr c' \<Rightarrow> rawCopy_Scans c' srcs)"

subsection \<open>\<open>recorder\<close>\<close>

text \<open>
  The recorder wraps the live stream. \<open>rec_onClose\<close> is the closure installed by
  \<open>Driver.Query\<close>; it changes the driver's counters and the world. \<open>convertAssign\<close> is
  \<open>database/sql.convertAssign\<close>, reached through \<open>go:linkname\<close>: a parameter \<open>ca\<close>
  telling, for a destination and a value, whether the assignment fails (what it writes
  to the caller's destination is not tracked).
\<close>

record 's recorder =
  rec_ColumnScanner :: "'s ColumnScanner"
  rec_values :: "Value list list"
  rec_columns :: "string list"
  rec_done :: bool
  rec_onClose :: "string list \<Rightarrow> Value list list \<Rightarrow> Stats \<times> 's \<Rightarrow> Stats \<times> 's"

definition recorder_Next :: "'s recorder \<Rightarrow> 's \<Rightarrow> bool \<times> 's recorder \<times> 's" where
  "recorder_Next r w =
     (case cs_Next (rec_ColumnScanner r) w of
        (hasNext, w') \<Rightarrow> (hasNext, r\<lparr>rec_done := \<not> hasNext\<rparr>, w'))"

fun convertAssign_each :: "('d \<Rightarrow> Value \<Rightarrow> error option) \<Rightarrow> 'd list \<Rightarrow> Value list \<Rightarrow> error option" where
  "convertAssign_each ca dest [] = None"
| "convertAssign_each ca [] (v # vs) = Some (Panic ''index out of range'')"
| "convertAssign_each ca (d # dest) (v # vs) =
     (case ca d v of
        Some err \<Rightarrow> Some err
      | None \<Rightarrow> convertAssign_each ca dest vs)"

definition recorder_Scan ::
  "('d \<Rightarrow> Value \<Rightarrow> error option) \<Rightarrow> 's recorder \<Rightarrow> 'd list \<Rightarrow> 's \<Rightarrow> error option \<times> 's recorder \<times> 's" where
  "recorder_Scan ca r dest w =
     (case cs_Scan (rec_ColumnScanner r) (length dest) w of
        ((err, srcs), w') \<Rightarrow>
          (case rawCopy_Scans ([], replicate (length dest) VNil) srcs of
             Inl p \<Rightarrow> (Some p, r, w')
           | Inr c \<Rightarrow>
               (case err of
                  Some e \<Rightarrow> (Some e, r, w')
                | None \<Rightarrow>
                    (let values = fst c @ snd c
                     in case convertAssign_each ca dest values of
                          Some e \<Rightarrow> (Some e, r, w')
                        | None \<Rightarrow> (None, r\<lparr>rec_values := rec_values r @ [values]\<rparr>, w')))))"

definition recorder_Columns :: "'s recorder \<Rightarrow> 's \<Rightarrow> (error + string list) \<times> 's recorder \<times> 's" where
  "recorder_Columns r w =
     (case cs_Columns (rec_ColumnScanner r) w of
        (Inl err, w') \<Rightarrow> (Inl err, r, w')
      | (Inr cols, w') \<Rightarrow> (Inr cols, r\<lparr>rec_columns := cols\<rparr>, w'))"

fun recorder_Close :: "'s recorder \<Rightarrow> Stats \<times> 's \<Rightarrow> error option \<times> Stats \<times> 's" where
  "recorder_Close r (st, w) =
     (case cs_Close (rec_ColumnScanner r) w of
        (Some err, w') \<Rightarrow> (Some err, st, w')
      | (None, w') \<Rightarrow>
          if cs_Err (rec_ColumnScanner r) w' = None \<or> rec_done r
          then (None, rec_onClose r (rec_columns r) (rec_values r) (st, w'))
          else (None, st, w'))"

declare recorder_Close.simps [simp del]

subsection \<open>\<open>repeater\<close>\<close>

record repeater =
  rep_columns :: "string list"
  rep_values :: "Value list list"

definition repeater_Close :: "repeater \<Rightarrow> error option" where
  "repeater_Close r = None"

definition repeater_ColumnTypes :: "repeater \<Rightarrow> error option" where
  "repeater_ColumnTypes r = Some ColumnTypesNotSupported"

definition repeater_Columns :: "repeater \<Rightarrow> error + string list" where
  "repeater_Columns r = Inr (rep_columns r)"

definition repeater_Err :: "repeater \<Rightarrow> error option" where
  "repeater_Err r = None"

definition repeater_Next :: "repeater \<Rightarrow> bool" where
  "repeater_Next r = (length (rep_values r) > 0)"

definition repeater_Scan ::
  "('d \<Rightarrow> Value \<Rightarrow> error option) \<Rightarrow> repeater \<Rightarrow> 'd list \<Rightarrow> error option \<times> repeater" where
  "repeater_Scan ca r dest =
     (if \<not> repeater_Next r then (Some ErrNoRows, r)
      else (case convertAssign_each ca dest (hd (rep_values r)) of
              Some err \<Rightarrow> (Some err, r)
            | None \<Rightarrow> (None, r\<lparr>rep_values := tl (rep_values r)\<rparr>)))"

subsection \<open>\<open>Driver\<close>\<close>

text \<open>
  The \<open>any\<close>-typed parameters of \<open>Query\<close>: \<open>args\<close> is a \<open>[]any\<close> or something else,
  \<open>v\<close> is a \<open>*sql.Rows\<close> or something else.
\<close>

datatype 'a args_any = ArgSlice "'a list" | ArgOther

datatype out_any = RowsPtr | OtherPtr

text \<open>The message handed to \<open>Log\<close>: the key and the error of the failed \<open>Add\<close>.\<close>

datatype LogMsg = FailedStoringEntry Key error

text \<open>
  The \<open>Driver\<close> struct without its counters, which are passed as state beside the
  world. \<open>Driver_Query\<close> is \<open>Query\<close> of the embedded \<open>dialect.Driver\<close>: it returns an
  error, or the row stream it left in \<open>v\<close>. \<open>Hash\<close> is a Go function value and may
  have effects of its own. \<open>Log\<close> is \<open>nil\<close> unless a sink was configured.
\<close>

record ('s, 'a) Driver =
  Driver_Query :: "Context \<Rightarrow> string \<Rightarrow> 'a args_any \<Rightarrow> out_any \<Rightarrow> 's \<Rightarrow> (error + 's ColumnScanner) \<times> 's"
  TTL :: Duration
  Cache :: "'s AddGetDeleter"
  Hash :: "string \<Rightarrow> 'a list \<Rightarrow> 's \<Rightarrow> (error + Key) \<times> 's"
  Log :: "(LogMsg \<Rightarrow> 's \<Rightarrow> 's) option"

text \<open>What \<open>Query\<close> leaves in \<open>v\<close>: the wrapped driver's stream, a recorder or a repeater.\<close>

datatype 's scanner =
    Underlying "'s ColumnScanner"
  | Recorder "'s recorder"
  | Repeater repeater

definition HasPrefix :: "string \<Rightarrow> string \<Rightarrow> bool" where
  "HasPrefix s prefix = (length s \<ge> length prefix \<and> take (length prefix) s = prefix)"

definition optionsFromContext ::
  "('s, 'a) Driver \<Rightarrow> Context \<Rightarrow> string \<Rightarrow> 'a list \<Rightarrow> 's \<Rightarrow> (ctxOptions \<times> error option) \<times> 's" where
  "optionsFromContext d ctx query args w =
     (let opts = (case ctxOptionsKey ctx of Some c \<Rightarrow> c | None \<Rightarrow> ctxOptions_zero);
          hashed = (if key opts = KeyNil then Hash d query args w else (Inr (key opts), w))
      in case hashed of
           (Inl err, w1) \<Rightarrow> ((opts, Some errSkip), w1)
         | (Inr k, w1) \<Rightarrow>
             (let opts1 = opts\<lparr>key := k\<rparr>;
                  opts2 = (if ttl opts1 = 0 then opts1\<lparr>ttl := TTL d\<rparr> else opts1);
                  deleted = (if evict opts2 then Del (Cache d) ctx (key opts2) w1 else (None, w1))
              in case deleted of
                   (Some err, w2) \<Rightarrow> ((opts2, Some err), w2)
                 | (None, w2) \<Rightarrow>
                     if skip opts2 then ((opts2, Some errSkip), w2)
                     else ((opts2, None), w2)))"

text \<open>The closure \<open>onClose\<close> that \<open>Query\<close> gives to the recorder.\<close>

fun Query_onClose ::
  "('s, 'a) Driver \<Rightarrow> Context \<Rightarrow> ctxOptions \<Rightarrow> string list \<Rightarrow> Value list list \<Rightarrow> Stats \<times> 's \<Rightarrow> Stats \<times> 's" where
  "Query_onClose d ctx opts columns values (st, w) =
     (case Add (Cache d) ctx (key opts) \<lparr>Columns = columns, Values = values\<rparr> (ttl opts) w of
        (None, w') \<Rightarrow> (st, w')
      | (Some err, w') \<Rightarrow>
          (case Log d of
             None \<Rightarrow> (st, w')
           | Some logf \<Rightarrow>
               (st\<lparr>Errors := Errors st + 1\<rparr>, logf (FailedStoringEntry (key opts) err) w')))"

declare Query_onClose.simps [simp del]

text \<open>\<open>return d.Driver.Query(ctx, query, args, v)\<close>: the counters are not touched.\<close>

fun Driver_forward ::
  "('s, 'a) Driver \<Rightarrow> Context \<Rightarrow> string \<Rightarrow> 'a args_any \<Rightarrow> out_any \<Rightarrow> Stats \<times> 's \<Rightarrow>
   (error + 's scanner) \<times> Stats \<times> 's" where
  "Driver_forward d ctx query args v (st, w) =
     (case Driver_Query d ctx query args v w of
        (Inl err, w') \<Rightarrow> (Inl err, st, w')
      | (Inr rows, w') \<Rightarrow> (Inr (Underlying rows), st, w'))"

declare Driver_forward.simps [simp del]

fun Query ::
  "('s, 'a) Driver \<Rightarrow> Context \<Rightarrow> string \<Rightarrow> 'a args_any \<Rightarrow> out_any \<Rightarrow> Stats \<times> 's \<Rightarrow>
   (error + 's scanner) \<times> Stats \<times> 's" where
  "Query d ctx query args v (st, w) =
     (if \<not> HasPrefix query ''SELECT'' \<and> \<not> HasPrefix query ''select''
      then Driver_forward d ctx query args v (st, w)
      else case v of
        OtherPtr \<Rightarrow> (Inl InvalidRowsType, st, w)
      | RowsPtr \<Rightarrow>
         (case args of
            ArgOther \<Rightarrow> (Inl InvalidArgsType, st, w)
          | ArgSlice argv \<Rightarrow>
             (case optionsFromContext d ctx query argv w of
                ((opts, Some err), w1) \<Rightarrow> Driver_forward d ctx query args v (st, w1)
              | ((opts, None), w1) \<Rightarrow>
                 (let st1 = st\<lparr>Gets := Gets st + 1\<rparr>
                  in case Get (Cache d) ctx (key opts) w1 of
                       (Inr e, w2) \<Rightarrow>
                         (Inr (Repeater \<lparr>rep_columns = Columns e, rep_values = Values e\<rparr>),
                          st1\<lparr>Hits := Hits st1 + 1\<rparr>, w2)
                     | (Inl gerr, w2) \<Rightarrow>
                         if gerr = ErrNotFound
                         then (case Driver_Query d ctx query args v w2 of
                                 (Inl err, w3) \<Rightarrow> (Inl err, st1, w3)
                               | (Inr rows, w3) \<Rightarrow>
                                   (Inr (Recorder
                                      \<lparr>rec_ColumnScanner = rows, rec_values = [], rec_columns = [],
                                       rec_done = False, rec_onClose = Query_onClose d ctx opts\<rparr>),
                                    st1, w3))
                         else Driver_forward d ctx query args v (st1, w2)))))"

declare Query.simps [simp del]

definition Driver_Stats :: "Stats \<Rightarrow> Stats" where
  "Driver_Stats st = \<lparr>Gets = Gets st, Hits = Hits st, Errors = Errors st\<rparr>"

section \<open>The two libraries behind the codec and the hasher\<close>

subsection \<open>A self-describing binary encoder\<close>

text \<open>
  Modelled from the spec: the encoder and decoder behind \<open>Entry.MarshalBinary\<close> and
  \<open>Entry.UnmarshalBinary\<close>. The package calls \<open>encoding/gob\<close>, whose code is not among
  the sources. The spec asks for a self-describing binary encoder that dispatches on the
  tag of each scalar (integer, float, bool, bytes, string, timestamp, null), keeps the
  order of columns and rows, and answers corrupt or incomplete bytes with a decoding
  error. Here a value is a tag byte naming its dynamic type, then its payload; lengths
  and integers are written seven bits to a byte, the high bit set on all but the last; a
  sequence is its length, then its elements. Every decoder returns the value and the
  bytes that follow it, or \<open>None\<close>.
\<close>

fun enc_nat :: "nat \<Rightarrow> 8 word list" where
  "enc_nat n =
     (if n < 128 then [of_nat n]
      else of_nat (128 + n mod 128) # enc_nat (n div 128))"

declare enc_nat.simps [simp del]

fun dec_nat :: "8 word list \<Rightarrow> (nat \<times> 8 word list) option" where
  "dec_nat [] = None"
| "dec_nat (b # bs) =
     (if unat b < 128 then Some (unat b, bs)
      else (case dec_nat bs of
              None \<Rightarrow> None
            | Some (m, rest) \<Rightarrow> Some (unat b - 128 + 128 * m, rest)))"

definition enc_bytes :: "8 word list \<Rightarrow> 8 word list" where
  "enc_bytes bs = enc_nat (length bs) @ bs"

definition dec_bytes :: "8 word list \<Rightarrow> (8 word list \<times> 8 word list) option" where
  "dec_bytes bs =
     (case dec_nat bs of
        None \<Rightarrow> None
      | Some (n, rest) \<Rightarrow> if length rest < n then None else Some (take n rest, drop n rest))"

definition enc_string :: "string \<Rightarrow> 8 word list" where
  "enc_string str = enc_bytes (map (\<lambda>c. of_nat (of_char c)) str)"

definition dec_string :: "8 word list \<Rightarrow> (string \<times> 8 word list) option" where
  "dec_string bs =
     (case dec_bytes bs of
        None \<Rightarrow> None
      | Some (raw, rest) \<Rightarrow> Some (map (\<lambda>b. char_of (unat b)) raw, rest))"

definition enc_word64 :: "64 word \<Rightarrow> 8 word list" where
  "enc_word64 w = enc_nat (unat w)"

definition dec_word64 :: "8 word list \<Rightarrow> (64 word \<times> 8 word list) option" where
  "dec_word64 bs =
     (case dec_nat bs of
        None \<Rightarrow> None
      | Some (n, rest) \<Rightarrow> Some (of_nat n, rest))"

definition enc_int :: "int \<Rightarrow> 8 word list" where
  "enc_int i = (if i < 0 then 1 else 0) # enc_nat (nat \<bar>i\<bar>)"

fun dec_int :: "8 word list \<Rightarrow> (int \<times> 8 word list) option" where
  "dec_int [] = None"
| "dec_int (sign # bs) =
     (case dec_nat bs of
        None \<Rightarrow> None
      | Some (n, rest) \<Rightarrow>
          if sign = 0 then Some (int n, rest)
          else if sign = 1 then Some (- int n, rest)
          else None)"

fun enc_value :: "Value \<Rightarrow> 8 word list" where
  "enc_value VNil = [0]"
| "enc_value (VInt64 w) = 1 # enc_word64 w"
| "enc_value (VFloat64 w) = 2 # enc_word64 w"
| "enc_value (VBool b) = [3, if b then 1 else 0]"
| "enc_value (VBytes bs) = 4 # enc_bytes bs"
| "enc_value (VString str) = 5 # enc_string str"
| "enc_value (VTime t) = 6 # enc_int t"

fun dec_value :: "8 word list \<Rightarrow> (Value \<times> 8 word list) option" where
  "dec_value [] = None"
| "dec_value (tag # bs) =
     (if tag = 0 then Some (VNil, bs)
      else if tag = 1 then map_option (\<lambda>(w, rest). (VInt64 w, rest)) (dec_word64 bs)
      else if tag = 2 then map_option (\<lambda>(w, rest). (VFloat64 w, rest)) (dec_word64 bs)
      else if tag = 3 then
        (case bs of
           [] \<Rightarrow> None
         | b # rest \<Rightarrow> if b = 0 then Some (VBool False, rest)
                       else if b = 1 then Some (VBool True, rest) else None)
      else if tag = 4 then map_option (\<lambda>(raw, rest). (VBytes raw, rest)) (dec_bytes bs)
      else if tag = 5 then map_option (\<lambda>(str, rest). (VString str, rest)) (dec_string bs)
      else if tag = 6 then map_option (\<lambda>(t, rest). (VTime t, rest)) (dec_int bs)
      else None)"

definition enc_list :: "('a \<Rightarrow> 8 word list) \<Rightarrow> 'a list \<Rightarrow> 8 word list" where
  "enc_list enc xs = enc_nat (length xs) @ concat (map enc xs)"

fun dec_many ::
  "(8 word list \<Rightarrow> ('a \<times> 8 word list) option) \<Rightarrow> nat \<Rightarrow> 8 word list \<Rightarrow> ('a list \<times> 8 word list) option" where
  "dec_many dec 0 bs = Some ([], bs)"
| "dec_many dec (Suc n) bs =
     (case dec bs of
        None \<Rightarrow> None
      | Some (x, rest) \<Rightarrow>
          (case dec_many dec n rest of
             None \<Rightarrow> None
           | Some (xs, rest') \<Rightarrow> Some (x # xs, rest')))"

definition dec_list ::
  "(8 word list \<Rightarrow> ('a \<times> 8 word list) option) \<Rightarrow> 8 word list \<Rightarrow> ('a list \<times> 8 word list) option" where
  "dec_list dec bs =
     (case dec_nat bs of
        None \<Rightarrow> None
      | Some (n, rest) \<Rightarrow> dec_many dec n rest)"

definition enc_entry :: "string list \<times> Value list list \<Rightarrow> 8 word list" where
  "enc_entry p = enc_list enc_string (fst p) @ enc_list (enc_list enc_value) (snd p)"

definition dec_entry :: "8 word list \<Rightarrow> ((string list \<times> Value list list) \<times> 8 word list) option" where
  "dec_entry bs =
     (case dec_list dec_string bs of
        None \<Rightarrow> None
      | Some (c, rest) \<Rightarrow>
          (case dec_list (dec_list dec_value) rest of
             None \<Rightarrow> None
           | Some (v, rest') \<Rightarrow> Some ((c, v), rest')))"

text \<open>
  Modelled from the spec: the codec as the parameter of \<open>MarshalBinary\<close> and
  \<open>UnmarshalBinary\<close>. Encoding never fails; decoding fails unless the bytes are exactly
  one encoded entry.
\<close>

definition gob_spec :: gob where
  "gob_spec =
     \<lparr>Encode = (\<lambda>p. Inr (enc_entry p)),
      Decode = (\<lambda>buf. case dec_entry buf of
                         Some (p, []) \<Rightarrow> Inr p
                       | _ \<Rightarrow> Inl (External ''gob: corrupt or incomplete input''))\<rparr>"

subsection \<open>A structural hasher\<close>

text \<open>
  Modelled from the spec: the hasher behind \<open>DefaultHash\<close>. The package calls
  \<open>hashstructure.Hash\<close> of \<open>github.com/mitchellh/hashstructure/v2\<close>, whose code is not
  among the sources. The spec describes it as hashing a structural representation of the
  pair (statement text, arguments) with a stable algorithm that treats slices
  order-sensitively and maps order-insensitively, yields a fixed-width integer, and may
  return an error. Here an argument is a scalar, a slice, a map given by its entries in
  the order the runtime happens to iterate them, or a value of a kind the hasher rejects;
  the algorithm is 64-bit FNV-1a, a slice folds its elements' hashes in order, a map
  combines its entries' hashes with exclusive or.
\<close>

datatype any =
    Scalar Value
  | Slice "any list"
  | Map "(any \<times> any) list"
  | Unhashable

definition fnv1a :: "8 word list \<Rightarrow> 64 word" where
  "fnv1a bs = fold (\<lambda>b h. (h XOR ucast b) * 1099511628211) bs 14695981039346656037"

definition word64_bytes :: "64 word \<Rightarrow> 8 word list" where
  "word64_bytes w = map (\<lambda>i. ucast (drop_bit (8 * i) w)) [0..<8]"

definition hashUpdateOrdered :: "64 word \<Rightarrow> 64 word \<Rightarrow> 64 word" where
  "hashUpdateOrdered a b = fnv1a (word64_bytes a @ word64_bytes b)"

definition hashUpdateUnordered :: "64 word \<Rightarrow> 64 word \<Rightarrow> 64 word" where
  "hashUpdateUnordered a b = a XOR b"

fun scalar_bytes :: "Value \<Rightarrow> 8 word list" where
  "scalar_bytes VNil = []"
| "scalar_bytes (VInt64 w) = word64_bytes w"
| "scalar_bytes (VFloat64 w) = word64_bytes w"
| "scalar_bytes (VBool b) = [if b then 1 else 0]"
| "scalar_bytes (VBytes bs) = bs"
| "scalar_bytes (VString str) = map (\<lambda>c. of_nat (of_char c)) str"
| "scalar_bytes (VTime t) = word64_bytes (of_int t)"

primrec hash_any :: "any \<Rightarrow> 64 word" where
  "hash_any (Scalar v) = fnv1a (scalar_bytes v)"
| "hash_any (Slice xs) =
     fold (\<lambda>h acc. hashUpdateOrdered acc h) (map hash_any xs) 14695981039346656037"
| "hash_any (Map es) =
     fold (\<lambda>kv acc. hashUpdateUnordered acc (hashUpdateOrdered (fst kv) (snd kv)))
       (map (map_prod hash_any hash_any) es) 0"
| "hash_any Unhashable = 0"

primrec supported :: "any \<Rightarrow> bool" where
  "supported (Scalar v) = True"
| "supported (Slice xs) = list_all (\<lambda>b. b) (map supported xs)"
| "supported (Map es) = list_all (\<lambda>kv. fst kv \<and> snd kv) (map (map_prod supported supported) es)"
| "supported Unhashable = False"

definition hashstructure_Hash :: "string \<Rightarrow> any list \<Rightarrow> error + 64 word" where
  "hashstructure_Hash q a =
     (if supported (Slice a)
      then Inr (hashUpdateOrdered (fnv1a (scalar_bytes (VString q))) (hash_any (Slice a)))
      else Inl (External ''unknown kind to hash''))"

text \<open>
  \<open>DefaultHash\<close> of driver.go: the struct \<open>{Q: query, A: args}\<close> is handed to the hasher
  with the constants \<open>FormatV2\<close> and \<open>nil\<close>; its error or its key is returned.
\<close>

definition DefaultHash :: "string \<Rightarrow> any list \<Rightarrow> error + Key" where
  "DefaultHash query args =
     (case hashstructure_Hash query args of
        Inl err \<Rightarrow> Inl err
      | Inr k \<Rightarrow> Inr (KeyUint64 k))"

section \<open>Notions used to state the properties\<close>

subsection \<open>What the LRU tier holds, and runs of its operations\<close>

text \<open>\<open>stored c k\<close> is the value the cache holds under \<open>k\<close>, if any.\<close>

definition stored :: "lru_Cache \<Rightarrow> Key \<Rightarrow> cached option" where
  "stored c k = map_of (ll c) k"

text \<open>
  \<open>stale c k t\<close>: the cache holds nothing under \<open>k\<close>, or an expiring entry whose expiry
  lies before \<open>t\<close>.
\<close>

definition stale :: "lru_Cache \<Rightarrow> Key \<Rightarrow> int \<Rightarrow> bool" where
  "stale c k t =
     (case stored c k of
        None \<Rightarrow> True
      | Some (Bare e) \<Rightarrow> False
      | Some (Expiring e expiry) \<Rightarrow> expiry < t)"

text \<open>A call of the tier, with the instant \<open>time.Now()\<close> returns during it.\<close>

datatype LRU_call =
    CallAdd Key Entry Duration int
  | CallGet Key int
  | CallDel Key

fun LRU_run :: "gob \<Rightarrow> lru_Cache \<Rightarrow> LRU_call list \<Rightarrow> lru_Cache" where
  "LRU_run g l [] = l"
| "LRU_run g l (CallAdd k e d now # cs) = LRU_run g (snd (LRU_Add g l k e d now)) cs"
| "LRU_run g l (CallGet k now # cs) = LRU_run g (snd (LRU_Get l k now)) cs"
| "LRU_run g l (CallDel k # cs) = LRU_run g (snd (LRU_Del l k)) cs"

fun adds_key :: "Key \<Rightarrow> LRU_call \<Rightarrow> bool" where
  "adds_key k (CallAdd k' e d now) = (k' = k)"
| "adds_key k (CallGet k' now) = False"
| "adds_key k (CallDel k') = False"

fun is_Get :: "LRU_call \<Rightarrow> bool" where
  "is_Get (CallGet k now) = True"
| "is_Get (CallAdd k e d now) = False"
| "is_Get (CallDel k) = False"

subsection \<open>Tiers that all miss, tiers that all succeed\<close>

text \<open>
  \<open>all_miss levels ctx k s\<close> is the state after consulting every tier of \<open>levels\<close> in
  order, when each of them answers \<open>ErrNotFound\<close>; \<open>None\<close> when one of them answers
  anything else. \<open>all_added\<close> and \<open>all_deleted\<close> are the same for \<open>Add\<close> and \<open>Del\<close>
  that return no error.
\<close>

fun all_miss :: "'s AddGetDeleter list \<Rightarrow> Context \<Rightarrow> Key \<Rightarrow> 's \<Rightarrow> 's option" where
  "all_miss [] ctx k s = Some s"
| "all_miss (l # levels) ctx k s =
     (if fst (Get l ctx k s) = Inl ErrNotFound
      then all_miss levels ctx k (snd (Get l ctx k s))
      else None)"

fun all_added :: "'s AddGetDeleter list \<Rightarrow> Context \<Rightarrow> Key \<Rightarrow> Entry \<Rightarrow> Duration \<Rightarrow> 's \<Rightarrow> 's option" where
  "all_added [] ctx k e d s = Some s"
| "all_added (l # levels) ctx k e d s =
     (if fst (Add l ctx k e d s) = None
      then all_added levels ctx k e d (snd (Add l ctx k e d s))
      else None)"

fun all_deleted :: "'s AddGetDeleter list \<Rightarrow> Context \<Rightarrow> Key \<Rightarrow> 's \<Rightarrow> 's option" where
  "all_deleted [] ctx k s = Some s"
| "all_deleted (l # levels) ctx k s =
     (if fst (Del l ctx k s) = None
      then all_deleted levels ctx k (snd (Del l ctx k s))
      else None)"

subsection \<open>A caller iterating a recorder\<close>

datatype 'd rcall =
    CallNext
  | CallScan "'d list"
  | CallColumns
  | CallClose

datatype rresult =
    NextResult bool
  | ScanResult "error option"
  | ColumnsResult "error + string list"
  | CloseResult "error option"

fun recorder_calls ::
  "('d \<Rightarrow> Value \<Rightarrow> error option) \<Rightarrow> 's recorder \<Rightarrow> 'd rcall list \<Rightarrow> Stats \<times> 's \<Rightarrow>
   rresult list \<times> 's recorder \<times> Stats \<times> 's" where
  "recorder_calls ca r [] (st, w) = ([], r, st, w)"
| "recorder_calls ca r (CallNext # cs) (st, w) =
     (case recorder_Next r w of
        (b, r', w') \<Rightarrow>
          (case recorder_calls ca r' cs (st, w') of
             (rs, r'', \<sigma>'') \<Rightarrow> (NextResult b # rs, r'', \<sigma>'')))"
| "recorder_calls ca r (CallScan dest # cs) (st, w) =
     (case recorder_Scan ca r dest w of
        (err, r', w') \<Rightarrow>
          (case recorder_calls ca r' cs (st, w') of
             (rs, r'', \<sigma>'') \<Rightarrow> (ScanResult err # rs, r'', \<sigma>'')))"
| "recorder_calls ca r (CallColumns # cs) (st, w) =
     (case recorder_Columns r w of
        (res, r', w') \<Rightarrow>
          (case recorder_calls ca r' cs (st, w') of
             (rs, r'', \<sigma>'') \<Rightarrow> (ColumnsResult res # rs, r'', \<sigma>'')))"
| "recorder_calls ca r (CallClose # cs) (st, w) =
     (case recorder_Close r (st, w) of
        (err, \<sigma>') \<Rightarrow>
          (case recorder_calls ca r cs \<sigma>' of
             (rs, r'', \<sigma>'') \<Rightarrow> (CloseResult err # rs, r'', \<sigma>'')))"

text \<open>
  \<open>Query\<close> followed by the caller's calls on the recorder it installed; \<open>None\<close> when
  \<open>Query\<close> did not install a recorder.
\<close>

definition Query_then ::
  "('d \<Rightarrow> Value \<Rightarrow> error option) \<Rightarrow> ('s, 'a) Driver \<Rightarrow> Context \<Rightarrow> string \<Rightarrow> 'a args_any \<Rightarrow>
   'd rcall list \<Rightarrow> Stats \<times> 's \<Rightarrow> (rresult list \<times> Stats \<times> 's) option" where
  "Query_then ca d ctx query args calls \<sigma> =
     (case Query d ctx query args RowsPtr \<sigma> of
        (Inr (Recorder r), \<sigma>1) \<Rightarrow>
          (case recorder_calls ca r calls \<sigma>1 of (rs, r', \<sigma>') \<Rightarrow> Some (rs, \<sigma>'))
      | _ \<Rightarrow> None)"

subsection \<open>Driver states reached by a number of operations\<close>

text \<open>
  \<open>op_step d \<sigma> \<sigma>'\<close>: one operation of the driver that can touch the counters takes
  \<open>\<sigma>\<close> to \<open>\<sigma>'\<close>: a call of \<open>Query\<close>, or \<open>Close\<close> on a recorder that \<open>Query\<close> created.
  \<open>reach d n \<sigma>\<close>: \<open>\<sigma>\<close> is reached from a fresh driver by \<open>n\<close> such operations; between
  them the world may change in any way (the caller iterates, other clients write).
\<close>

inductive op_step :: "('s, 'a) Driver \<Rightarrow> Stats \<times> 's \<Rightarrow> Stats \<times> 's \<Rightarrow> bool" for d where
  step_Query: "Query d ctx query args v \<sigma> = (res, \<sigma>') \<Longrightarrow> op_step d \<sigma> \<sigma>'"
| step_Close: "rec_onClose r = Query_onClose d ctx opts \<Longrightarrow> recorder_Close r \<sigma> = (err, \<sigma>') \<Longrightarrow>
     op_step d \<sigma> \<sigma>'"

inductive reach :: "('s, 'a) Driver \<Rightarrow> nat \<Rightarrow> Stats \<times> 's \<Rightarrow> bool" for d where
  reach_init: "reach d 0 (Stats_zero, w)"
| reach_step: "reach d n \<sigma> \<Longrightarrow> op_step d \<sigma> \<sigma>' \<Longrightarrow> reach d (Suc n) \<sigma>'"
| reach_world: "reach d n (st, w) \<Longrightarrow> reach d n (st, w')"

subsection \<open>Arguments that are the same values\<close>

text \<open>
  \<open>same_value a b\<close>: \<open>a\<close> and \<open>b\<close> are the same Go value. Two maps are the same value when
  they hold the same entries; the order in which the runtime iterates them may differ
  from one call to the next.
\<close>

inductive same_value :: "any \<Rightarrow> any \<Rightarrow> bool" where
  same_Scalar: "same_value (Scalar v) (Scalar v)"
| same_Slice: "list_all2 same_value xs ys \<Longrightarrow> same_value (Slice xs) (Slice ys)"
| same_Map: "list_all2 (rel_prod same_value same_value) es fs \<Longrightarrow> mset fs = mset gs \<Longrightarrow>
     same_value (Map es) (Map gs)"
| same_Unhashable: "same_value Unhashable Unhashable"
monos list_all2_mono prod.rel_mono

section \<open>A mock world for concrete runs\<close>

text \<open>
  The repository's tests run the driver over \<open>sqlmock\<close> and \<open>redismock\<close>. The same kind
  of world, used below wherever a property is run on a concrete input: the rows the open
  stream will still deliver, the row under the cursor, what the store holds, and the
  calls seen by the wrapped driver, the hasher and the log sink.
\<close>

record mock =
  mock_rows :: "Value list list"
  mock_current :: "Value list option"
  mock_store :: "(Key \<times> Entry) list"
  mock_queries :: nat
  mock_hashes :: nat
  mock_logged :: "LogMsg list"

definition mock_init :: mock where
  "mock_init =
     \<lparr>mock_rows = [], mock_current = None, mock_store = [], mock_queries = 0,
      mock_hashes = 0, mock_logged = []\<rparr>"

definition mock_Rows :: "mock ColumnScanner" where
  "mock_Rows =
     \<lparr>cs_Close = (\<lambda>w. (None, w)),
      cs_Columns = (\<lambda>w. (Inr [''name''], w)),
      cs_Err = (\<lambda>w. None),
      cs_Next = (\<lambda>w. case mock_rows w of
                        [] \<Rightarrow> (False, w\<lparr>mock_current := None\<rparr>)
                      | row # rest \<Rightarrow> (True, w\<lparr>mock_rows := rest, mock_current := Some row\<rparr>)),
      cs_Scan = (\<lambda>n w. case mock_current w of
                          None \<Rightarrow> ((Some (External ''sql: Scan called without calling Next''), []), w)
                        | Some row \<Rightarrow>
                            if length row = n then ((None, row), w)
                            else ((Some (External ''sql: wrong number of destination arguments''), []), w))\<rparr>"

definition mock_Cache :: "error option \<Rightarrow> error option \<Rightarrow> mock AddGetDeleter" where
  "mock_Cache addErr delErr =
     \<lparr>Del = (\<lambda>ctx k w. case delErr of
                         Some err \<Rightarrow> (Some err, w)
                       | None \<Rightarrow> (None, w\<lparr>mock_store := filter (\<lambda>p. fst p \<noteq> k) (mock_store w)\<rparr>)),
      Add = (\<lambda>ctx k e d w. case addErr of
                             Some err \<Rightarrow> (Some err, w)
                           | None \<Rightarrow> (None, w\<lparr>mock_store := (k, e) # mock_store w\<rparr>)),
      Get = (\<lambda>ctx k w. case map_of (mock_store w) k of
                         None \<Rightarrow> (Inl ErrNotFound, w)
                       | Some e \<Rightarrow> (Inr e, w))\<rparr>"

definition mock_Driver ::
  "Value list list \<Rightarrow> error option \<Rightarrow> error option \<Rightarrow> bool \<Rightarrow> (mock, Value) Driver" where
  "mock_Driver rows addErr delErr withLog =
     \<lparr>Driver_Query = (\<lambda>ctx query args v w.
        (Inr mock_Rows, w\<lparr>mock_rows := rows, mock_current := None, mock_queries := mock_queries w + 1\<rparr>)),
      TTL = 0,
      Cache = mock_Cache addErr delErr,
      Hash = (\<lambda>query args w. (Inr (KeyInt 1), w\<lparr>mock_hashes := mock_hashes w + 1\<rparr>)),
      Log = (if withLog then Some (\<lambda>msg w. w\<lparr>mock_logged := msg # mock_logged w\<rparr>) else None)\<rparr>"

text \<open>A destination of \<open>Scan\<close> that accepts every value, as \<open>*any\<close> does.\<close>

definition mock_convertAssign :: "unit \<Rightarrow> Value \<Rightarrow> error option" where
  "mock_convertAssign dest src = None"

definition entry_a8m :: Entry where
  "entry_a8m = \<lparr>Columns = [''name''], Values = [[VString ''a8m'']]\<rparr>"

text \<open>A codec that knows one entry and one byte string.\<close>

definition gob_stub :: gob where
  "gob_stub =
     \<lparr>Encode = (\<lambda>p. if p = ([''name''], [[VString ''a8m'']]) then Inr [1]
                     else Inl (External ''gob: stub'')),
      Decode = (\<lambda>buf. if buf = [1] then Inr ([''name''], [[VString ''a8m'']])
                       else Inl (External ''gob: stub''))\<rparr>"

definition lru_bare :: lru_Cache where
  "lru_bare = snd (LRU_Add gob_stub (NewLRU 0) (KeyString ''cache-key'') entry_a8m 0 100)"

definition lru_wrapped :: lru_Cache where
  "lru_wrapped = snd (LRU_Add gob_stub (NewLRU 0) (KeyString ''cache-key'') entry_a8m 50 100)"

definition lru_expired :: lru_Cache where
  "lru_expired = snd (LRU_Add gob_stub (NewLRU 0) (KeyString ''cache-key'') entry_a8m (- 1) 100)"

text \<open>
  A remote key/value service in the manner of \<open>redismock\<close>: a list of pairs, and every
  command failing with \<open>down\<close> when that is set. A missing key is \<open>redis.Nil\<close>.
\<close>

definition redis_mock :: "error option \<Rightarrow> (string \<times> 8 word list) list Cmdable" where
  "redis_mock down =
     \<lparr>Cmd_Set = (\<lambda>ctx str buf d s. case down of
                                    Some err \<Rightarrow> (Some err, s)
                                  | None \<Rightarrow> (None, (str, buf) # s)),
      Cmd_Get = (\<lambda>ctx str s. case down of
                              Some err \<Rightarrow> (Inl err, s)
                            | None \<Rightarrow> (case map_of s str of
                                         None \<Rightarrow> (Inl RedisNil, s)
                                       | Some buf \<Rightarrow> (Inr buf, s))),
      Cmd_Del = (\<lambda>ctx str s. case down of
                              Some err \<Rightarrow> (Some err, s)
                            | None \<Rightarrow> (None, filter (\<lambda>p. fst p \<noteq> str) s))\<rparr>"

text \<open>
  A tier that keeps a journal of the calls it receives and answers as told: \<open>Get\<close>
  with \<open>getResult\<close>, \<open>Add\<close> and \<open>Del\<close> with \<open>writeErr\<close>.
\<close>

definition journal_tier :: "string \<Rightarrow> error + Entry \<Rightarrow> error option \<Rightarrow> string list AddGetDeleter" where
  "journal_tier name getResult writeErr =
     \<lparr>Del = (\<lambda>ctx k s. (writeErr, s @ [name @ ''.Del''])),
      Add = (\<lambda>ctx k e d s. (writeErr, s @ [name @ ''.Add''])),
      Get = (\<lambda>ctx k s. (getResult, s @ [name @ ''.Get'']))\<rparr>"

text \<open>
  The options the driver resolves for a plain context over the mock hasher, the recorder
  \<open>Query\<close> installs on a miss (with the rows recorded so far and the \<open>done\<close> flag),
  the world after the wrapped driver opened a stream, and the world after the recorded
  entry was stored and \<open>n\<close> more queries were served from it.
\<close>

definition mock_opts :: ctxOptions where
  "mock_opts = \<lparr>skip = False, evict = False, key = KeyInt 1, ttl = 0\<rparr>"

definition mock_recorder :: "(mock, Value) Driver \<Rightarrow> Value list list \<Rightarrow> bool \<Rightarrow> mock recorder" where
  "mock_recorder d vals fin =
     \<lparr>rec_ColumnScanner = mock_Rows, rec_values = vals, rec_columns = [], rec_done = fin,
      rec_onClose = Query_onClose d Background mock_opts\<rparr>"

definition mock_opened :: "Value list list \<Rightarrow> mock" where
  "mock_opened rows =
     \<lparr>mock_rows = rows, mock_current = None, mock_store = [], mock_queries = 1,
      mock_hashes = 1, mock_logged = []\<rparr>"

definition mock_served :: "nat \<Rightarrow> mock" where
  "mock_served n =
     \<lparr>mock_rows = [], mock_current = None,
      mock_store = [(KeyInt 1, \<lparr>Columns = [], Values = [[VString ''a8m'']]\<rparr>)],
      mock_queries = 1, mock_hashes = Suc n, mock_logged = []\<rparr>"

definition mock_counted :: "Stats \<times> mock" where
  "mock_counted = (\<lparr>Gets = 1, Hits = 0, Errors = 0\<rparr>, mock_served 0)"

definition mock_counted' :: "Stats \<times> mock" where
  "mock_counted' = (\<lparr>Gets = 2, Hits = 1, Errors = 0\<rparr>, mock_served 1)"

section \<open>The LRU tier: properties\<close>

lemma map_of_filter_fst:
  "map_of (filter (\<lambda>p. fst p \<noteq> k) l) k' = (if k' = k then None else map_of l k')"
  by (induction l) auto

lemma map_of_butlast:
  "map_of (butlast l) k = None \<or> map_of (butlast l) k = map_of l k"
  by (induction l) auto

lemma stored_lru_Get:
  "fst (lru_Get c k) = stored c k" "stored (snd (lru_Get c k)) k' = stored c k'"
  by (auto simp: lru_Get_def stored_def map_of_filter_fst split: option.splits)

lemma stored_lru_Remove:
  "stored (lru_Remove c k) k' = (if k' = k then None else stored c k')"
  by (simp add: lru_Remove_def stored_def map_of_filter_fst)

lemma stored_lru_Add_same:
  "0 \<le> MaxEntries c \<Longrightarrow> stored (lru_Add c k v) k = Some v"
  by (cases "ll c") (auto simp: lru_Add_def stored_def Let_def split: option.splits)

lemma stored_lru_Add_other:
  "k' \<noteq> k \<Longrightarrow> stored (lru_Add c k v) k' = None \<or> stored (lru_Add c k v) k' = stored c k'"
  using map_of_butlast[of "(k, v) # ll c" k']
  by (auto simp: lru_Add_def stored_def Let_def map_of_filter_fst split: option.splits)

lemma stored_lru_Add_any:
  "stored (lru_Add c k v) k = None \<or> stored (lru_Add c k v) k = Some v"
  using map_of_butlast[of "(k, v) # ll c" k]
  by (auto simp: lru_Add_def stored_def Let_def map_of_filter_fst split: option.splits)

lemma lru_Get_split: "lru_Get c k = (stored c k, snd (lru_Get c k))"
  by (metis prod.collapse stored_lru_Get(1))

lemma LRU_Get_None:
  "stored c k = None \<Longrightarrow> LRU_Get c k t = (Inl ErrNotFound, c)"
  by (simp add: LRU_Get_def lru_Get_def stored_def)

lemma LRU_Get_Bare:
  "stored c k = Some (Bare e) \<Longrightarrow> LRU_Get c k t = (Inr e, snd (lru_Get c k))"
  by (subst LRU_Get_def, subst lru_Get_split) simp

lemma LRU_Get_Expiring:
  "stored c k = Some (Expiring e expiry) \<Longrightarrow>
   LRU_Get c k t =
     (if t < expiry then (Inr e, snd (lru_Get c k))
      else (Inl ErrNotFound, lru_Remove (snd (lru_Get c k)) k))"
  by (subst LRU_Get_def, subst lru_Get_split) simp

lemma stored_LRU_Get_other:
  "k' \<noteq> k \<Longrightarrow> stored (snd (LRU_Get c k t)) k' = stored c k'"
proof (cases "stored c k")
  case None
  then show ?thesis by (simp add: LRU_Get_None)
next
  case (Some v)
  assume "k' \<noteq> k"
  with Some show ?thesis
    by (cases v) (simp_all add: LRU_Get_Bare LRU_Get_Expiring stored_lru_Get stored_lru_Remove)
qed

lemma stored_LRU_Get_same:
  "stored (snd (LRU_Get c k t)) k = None \<or> stored (snd (LRU_Get c k t)) k = stored c k"
proof (cases "stored c k")
  case None
  then show ?thesis by (simp add: LRU_Get_None)
next
  case (Some v)
  then show ?thesis
    by (cases v) (simp_all add: LRU_Get_Bare LRU_Get_Expiring stored_lru_Get stored_lru_Remove)
qed

lemma stale_mono: "stored c' k = None \<or> stored c' k = stored c k \<Longrightarrow> stale c k t \<Longrightarrow> stale c' k t"
  by (auto simp: stale_def)

lemma stale_LRU_Get:
  assumes "stale c k t"
  shows "stale (snd (LRU_Get c k' t')) k t"
proof (cases "k = k'")
  case True
  show ?thesis
    using stored_LRU_Get_same[of c k t'] assms unfolding True [symmetric]
    by (rule stale_mono)
next
  case False
  then have "stored (snd (LRU_Get c k' t')) k = stored c k"
    by (simp add: stored_LRU_Get_other)
  then show ?thesis using assms by (simp add: stale_def)
qed

lemma stale_LRU_Del: "stale c k t \<Longrightarrow> stale (snd (LRU_Del c k')) k t"
  by (rule stale_mono) (auto simp: LRU_Del_def stored_lru_Remove)

lemma stale_LRU_Add_other:
  assumes "k' \<noteq> k" and "stale c k t"
  shows "stale (snd (LRU_Add g c k' e d t')) k t"
proof -
  have "stored (snd (LRU_Add g c k' e d t')) k = None \<or>
        stored (snd (LRU_Add g c k' e d t')) k = stored c k"
    using assms(1) stored_lru_Add_other[of k k' c]
    by (auto simp: LRU_Add_def split: sum.splits)
  then show ?thesis using assms(2) by (rule stale_mono)
qed

lemma stale_LRU_run:
  "stale l k t \<Longrightarrow> \<forall>c\<in>set cs. \<not> adds_key k c \<Longrightarrow> stale (LRU_run g l cs) k t"
proof (induction cs arbitrary: l)
  case Nil
  then show ?case by simp
next
  case (Cons c cs)
  then show ?case
    by (cases c) (auto simp: stale_LRU_Get stale_LRU_Del stale_LRU_Add_other)
qed

lemma stale_LRU_Get_miss:
  "stale c k t \<Longrightarrow> t \<le> t' \<Longrightarrow> fst (LRU_Get c k t') = Inl ErrNotFound"
  by (auto simp: stale_def LRU_Get_None LRU_Get_Expiring split: option.splits cached.splits)

lemma LRU_Add_negative_stale:
  assumes "sint d < 0" and "LRU_Add g l k e d now = (None, l1)"
  shows "stale l1 k now"
proof -
  from assms(1) have nz: "d \<noteq> 0" by auto
  from assms(2) nz obtain ne where l1: "l1 = lru_Add l k (Expiring ne (now + sint d))"
    by (auto simp: LRU_Add_def split: sum.splits)
  from stored_lru_Add_any[of l k "Expiring ne (now + sint d)"] assms(1)
  show ?thesis by (auto simp: stale_def l1)
qed

lemma Bare_kept_by_Gets:
  "stored c k = Some (Bare e) \<Longrightarrow> \<forall>x\<in>set cs. is_Get x \<Longrightarrow>
   stored (LRU_run g c cs) k = Some (Bare e)"
proof (induction cs arbitrary: c)
  case Nil
  then show ?case by simp
next
  case (Cons x cs)
  from Cons.prems(2) obtain k' t' where x: "x = CallGet k' t'"
    by (cases x) auto
  have "stored (snd (LRU_Get c k' t')) k = Some (Bare e)"
  proof (cases "k' = k")
    case True
    with Cons.prems(1) show ?thesis by (simp add: LRU_Get_Bare stored_lru_Get)
  next
    case False
    with Cons.prems(1) show ?thesis by (simp add: stored_LRU_Get_other)
  qed
  with Cons.IH[of "snd (LRU_Get c k' t')"] Cons.prems(2) x show ?case by simp
qed

text \<open>
  Claim C4. For the LRU tier: \<open>Add\<close> with \<open>ttl = 0\<close> stores the entry bare, and a bare
  entry is served by every later \<open>Get\<close> as long as it is held; \<open>Add\<close> with a non-zero
  \<open>ttl\<close> stores it wrapped with the absolute expiry \<open>now + ttl\<close>; \<open>Get\<close> of a key that
  is not held answers \<open>ErrNotFound\<close>; \<open>Get\<close> of a wrapped entry returns the inner entry
  when \<open>now < expiry\<close>, and otherwise removes it and answers \<open>ErrNotFound\<close>; so an entry
  added with a negative \<open>ttl\<close> is served by no lookup at an instant \<open>t'\<close> not before the
  instant of the \<open>Add\<close>, whatever other calls come between (short of adding the key
  again). The entry stored is the copy \<open>ne\<close> that the codec produced from the caller's
  entry; the first three conclusions are under the hypothesis that the codec produced
  one.
\<close>

theorem LRU_tier_semantics:
  "(MarshalBinary g e = Inr buf \<and> UnmarshalBinary g buf = Inr ne \<longrightarrow>
      LRU_Add g l k e 0 now = (None, lru_Add l k (Bare ne)) \<and>
      (d \<noteq> 0 \<longrightarrow> LRU_Add g l k e d now = (None, lru_Add l k (Expiring ne (now + sint d)))) \<and>
      (0 \<le> MaxEntries l \<longrightarrow> stored (lru_Add l k v) k = Some v)) \<and>
   (stored cm k = None \<longrightarrow> LRU_Get cm k t = (Inl ErrNotFound, cm)) \<and>
   (stored cb k = Some (Bare eb) \<longrightarrow>
      fst (LRU_Get cb k t) = Inr eb \<and>
      stored (snd (LRU_Get cb k t)) k = Some (Bare eb) \<and>
      ((\<forall>x\<in>set gets. is_Get x) \<longrightarrow> fst (LRU_Get (LRU_run g cb gets) k t) = Inr eb)) \<and>
   (stored cw k = Some (Expiring ew expiry) \<and> t < expiry \<longrightarrow>
      fst (LRU_Get cw k t) = Inr ew \<and>
      stored (snd (LRU_Get cw k t)) k = Some (Expiring ew expiry)) \<and>
   (stored cx k = Some (Expiring ex expired) \<and> \<not> t < expired \<longrightarrow>
      fst (LRU_Get cx k t) = Inl ErrNotFound \<and>
      stored (snd (LRU_Get cx k t)) k = None) \<and>
   (sint dn < 0 \<and> LRU_Add g l k e dn now = (None, l1) \<and>
    (\<forall>x\<in>set calls. \<not> adds_key k x) \<and> now \<le> t' \<longrightarrow>
      fst (LRU_Get (LRU_run g l1 calls) k t') = Inl ErrNotFound)"
proof (intro conjI impI)
  assume "MarshalBinary g e = Inr buf \<and> UnmarshalBinary g buf = Inr ne"
  then show "LRU_Add g l k e 0 now = (None, lru_Add l k (Bare ne))"
    by (simp add: LRU_Add_def)
next
  assume "MarshalBinary g e = Inr buf \<and> UnmarshalBinary g buf = Inr ne" and "d \<noteq> 0"
  then show "LRU_Add g l k e d now = (None, lru_Add l k (Expiring ne (now + sint d)))"
    by (simp add: LRU_Add_def)
next
  assume "0 \<le> MaxEntries l"
  then show "stored (lru_Add l k v) k = Some v"
    by (rule stored_lru_Add_same)
next
  assume "stored cm k = None"
  then show "LRU_Get cm k t = (Inl ErrNotFound, cm)"
    by (rule LRU_Get_None)
next
  assume "stored cb k = Some (Bare eb)"
  then show "fst (LRU_Get cb k t) = Inr eb"
    by (simp add: LRU_Get_Bare)
next
  assume "stored cb k = Some (Bare eb)"
  then show "stored (snd (LRU_Get cb k t)) k = Some (Bare eb)"
    by (simp add: LRU_Get_Bare stored_lru_Get)
next
  assume "stored cb k = Some (Bare eb)" and "\<forall>x\<in>set gets. is_Get x"
  then have "stored (LRU_run g cb gets) k = Some (Bare eb)"
    by (rule Bare_kept_by_Gets)
  then show "fst (LRU_Get (LRU_run g cb gets) k t) = Inr eb"
    by (simp add: LRU_Get_Bare)
next
  assume "stored cw k = Some (Expiring ew expiry) \<and> t < expiry"
  then show "fst (LRU_Get cw k t) = Inr ew"
    by (simp add: LRU_Get_Expiring)
next
  assume "stored cw k = Some (Expiring ew expiry) \<and> t < expiry"
  then show "stored (snd (LRU_Get cw k t)) k = Some (Expiring ew expiry)"
    by (simp add: LRU_Get_Expiring stored_lru_Get)
next
  assume "stored cx k = Some (Expiring ex expired) \<and> \<not> t < expired"
  then show "fst (LRU_Get cx k t) = Inl ErrNotFound"
    by (simp add: LRU_Get_Expiring)
next
  assume "stored cx k = Some (Expiring ex expired) \<and> \<not> t < expired"
  then show "stored (snd (LRU_Get cx k t)) k = None"
    by (simp add: LRU_Get_Expiring stored_lru_Remove)
next
  assume a: "sint dn < 0 \<and> LRU_Add g l k e dn now = (None, l1) \<and>
    (\<forall>x\<in>set calls. \<not> adds_key k x) \<and> now \<le> t'"
  then have "stale l1 k now"
    using LRU_Add_negative_stale by blast
  with a have "stale (LRU_run g l1 calls) k now"
    by (simp add: stale_LRU_run)
  with a show "fst (LRU_Get (LRU_run g l1 calls) k t') = Inl ErrNotFound"
    by (simp add: stale_LRU_Get_miss)
qed

lemma lru_fixtures:
  "lru_bare = \<lparr>MaxEntries = 0, ll = [(KeyString ''cache-key'', Bare entry_a8m)]\<rparr>"
  "lru_wrapped = \<lparr>MaxEntries = 0, ll = [(KeyString ''cache-key'', Expiring entry_a8m 150)]\<rparr>"
  "lru_expired = \<lparr>MaxEntries = 0, ll = [(KeyString ''cache-key'', Expiring entry_a8m 99)]\<rparr>"
  by (simp_all add: lru_bare_def lru_wrapped_def lru_expired_def LRU_Add_def MarshalBinary_def
      UnmarshalBinary_def gob_stub_def entry_a8m_def NewLRU_def lru_New_def lru_Add_def)

text \<open>The theorem at work on three caches built by \<open>LRU.Add\<close> at instant 100.\<close>

theorem LRU_tier_semantics_witness:
  "LRU_Add gob_stub (NewLRU 0) (KeyString ''cache-key'') entry_a8m 0 100 =
     (None, lru_Add (NewLRU 0) (KeyString ''cache-key'') (Bare entry_a8m)) \<and>
   LRU_Add gob_stub (NewLRU 0) (KeyString ''cache-key'') entry_a8m 50 100 =
     (None, lru_Add (NewLRU 0) (KeyString ''cache-key'') (Expiring entry_a8m (100 + sint (50 :: 64 word)))) \<and>
   stored (lru_Add (NewLRU 0) (KeyString ''cache-key'') (Bare entry_a8m)) (KeyString ''cache-key'') =
     Some (Bare entry_a8m) \<and>
   LRU_Get (NewLRU 0) (KeyString ''cache-key'') 120 = (Inl ErrNotFound, NewLRU 0) \<and>
   fst (LRU_Get lru_bare (KeyString ''cache-key'') 120) = Inr entry_a8m \<and>
   stored (snd (LRU_Get lru_bare (KeyString ''cache-key'') 120)) (KeyString ''cache-key'') =
     Some (Bare entry_a8m) \<and>
   fst (LRU_Get (LRU_run gob_stub lru_bare [CallGet (KeyString ''cache-key'') 110, CallGet (KeyInt 1) 115])
          (KeyString ''cache-key'') 120) = Inr entry_a8m \<and>
   fst (LRU_Get lru_wrapped (KeyString ''cache-key'') 120) = Inr entry_a8m \<and>
   stored (snd (LRU_Get lru_wrapped (KeyString ''cache-key'') 120)) (KeyString ''cache-key'') =
     Some (Expiring entry_a8m 150) \<and>
   fst (LRU_Get lru_expired (KeyString ''cache-key'') 120) = Inl ErrNotFound \<and>
   stored (snd (LRU_Get lru_expired (KeyString ''cache-key'') 120)) (KeyString ''cache-key'') = None \<and>
   fst (LRU_Get (LRU_run gob_stub lru_expired [CallGet (KeyString ''cache-key'') 101, CallDel (KeyInt 1)])
          (KeyString ''cache-key'') 100) = Inl ErrNotFound"
proof -
  have hyps:
    "MarshalBinary gob_stub entry_a8m = Inr [1]"
    "UnmarshalBinary gob_stub [1] = Inr entry_a8m"
    "((50 :: 64 word) = 0) = False"
    "(0 \<le> MaxEntries (NewLRU 0)) = True"
    "stored (NewLRU 0) (KeyString ''cache-key'') = None"
    "stored lru_bare (KeyString ''cache-key'') = Some (Bare entry_a8m)"
    "(\<forall>x\<in>set [CallGet (KeyString ''cache-key'') 110, CallGet (KeyInt 1) 115]. is_Get x) = True"
    "stored lru_wrapped (KeyString ''cache-key'') = Some (Expiring entry_a8m 150)"
    "((120 :: int) < 150) = True"
    "stored lru_expired (KeyString ''cache-key'') = Some (Expiring entry_a8m 99)"
    "((120 :: int) < 99) = False"
    "(sint (- 1 :: 64 word) < 0) = True"
    "LRU_Add gob_stub (NewLRU 0) (KeyString ''cache-key'') entry_a8m (- 1) 100 = (None, lru_expired)"
    "(\<forall>x\<in>set [CallGet (KeyString ''cache-key'') 101, CallDel (KeyInt 1)].
        \<not> adds_key (KeyString ''cache-key'') x) = True"
    "((100 :: int) \<le> 100) = True"
    by (simp_all add: lru_fixtures stored_def MarshalBinary_def UnmarshalBinary_def gob_stub_def
        entry_a8m_def NewLRU_def lru_New_def LRU_Add_def lru_Add_def)
  show ?thesis
    using LRU_tier_semantics [where g = gob_stub and e = entry_a8m and buf = "[1]" and ne = entry_a8m
      and l = "NewLRU 0" and k = "KeyString ''cache-key''" and now = 100 and d = 50
      and v = "Bare entry_a8m" and cm = "NewLRU 0" and t = 120 and cb = lru_bare
      and eb = entry_a8m and gets = "[CallGet (KeyString ''cache-key'') 110, CallGet (KeyInt 1) 115]"
      and cw = lru_wrapped and ew = entry_a8m and expiry = 150
      and cx = lru_expired and ex = entry_a8m and expired = 99
      and dn = "- 1" and ?l1.0 = lru_expired
      and calls = "[CallGet (KeyString ''cache-key'') 101, CallDel (KeyInt 1)]" and t' = 100]
    by (simp only: hyps simp_thms)
qed

section \<open>The remote tier: properties\<close>

lemma Sprint_KeyInt_1: "Sprint (KeyInt 1) = ''1''"
  by code_simp

lemma Sprint_KeyString: "Sprint (KeyString str) = str"
  by (simp add: Sprint_def)

text \<open>
  Claim C3 says that every error of the remote service but "no such key" reaches the
  caller of \<open>Get\<close>. It does not: with the service refusing the connection, the remote
  \<open>GET\<close> fails with that error and \<open>Redis.Get\<close> answers \<open>ErrNotFound\<close>.
\<close>

theorem Redis_Get_error_counterexample:
  "Cmd_Get (redis_mock (Some (External ''connection refused''))) Background (Sprint (KeyInt 1)) [] =
     (Inl (External ''connection refused''), []) \<and>
   Redis_Get gob_stub (redis_mock (Some (External ''connection refused''))) Background (KeyInt 1) [] =
     (Inl ErrNotFound, [])"
  by (simp add: Redis_Get_def redis_mock_def Sprint_KeyInt_1)

text \<open>
  Claim C3, amended. For the remote tier with a non-empty textual key: \<open>Add\<close> returns
  what the remote \<open>SET\<close> returns and \<open>Del\<close> what the remote \<open>DEL\<close> returns, so each of
  their errors reaches the caller; \<open>Get\<close> answers \<open>ErrNotFound\<close> for every error of the
  remote \<open>GET\<close> (the "no such key" signal and any other) and for an empty payload, and
  for a non-empty payload returns what the decoder returns, its error included. An
  empty textual key makes \<open>Add\<close> and \<open>Del\<close> do nothing and \<open>Get\<close> miss, the service
  untouched.
\<close>

theorem Redis_tier_errors:
  "(Sprint k \<noteq> [] \<and> MarshalBinary g e = Inr buf \<longrightarrow>
      Redis_Add g c ctx k e d s = Cmd_Set c ctx (Sprint k) buf d s) \<and>
   (Sprint k \<noteq> [] \<longrightarrow> Redis_Del c ctx k s = Cmd_Del c ctx (Sprint k) s) \<and>
   (Sprint k \<noteq> [] \<and> Cmd_Get c ctx (Sprint k) s = (Inl err, s') \<longrightarrow>
      Redis_Get g c ctx k s = (Inl ErrNotFound, s')) \<and>
   (Sprint k \<noteq> [] \<and> Cmd_Get c ctx (Sprint k) s = (Inr [], s') \<longrightarrow>
      Redis_Get g c ctx k s = (Inl ErrNotFound, s')) \<and>
   (Sprint k \<noteq> [] \<and> Cmd_Get c ctx (Sprint k) s = (Inr payload, s') \<and> payload \<noteq> [] \<longrightarrow>
      Redis_Get g c ctx k s =
        (case UnmarshalBinary g payload of Inl derr \<Rightarrow> (Inl derr, s') | Inr en \<Rightarrow> (Inr en, s'))) \<and>
   (Sprint k = [] \<longrightarrow>
      Redis_Add g c ctx k e d s = (None, s) \<and>
      Redis_Del c ctx k s = (None, s) \<and>
      Redis_Get g c ctx k s = (Inl ErrNotFound, s))"
proof (intro conjI impI)
  assume a: "Sprint k \<noteq> [] \<and> MarshalBinary g e = Inr buf"
  obtain r s1 where "Cmd_Set c ctx (Sprint k) buf d s = (r, s1)"
    by (cases "Cmd_Set c ctx (Sprint k) buf d s")
  with a show "Redis_Add g c ctx k e d s = Cmd_Set c ctx (Sprint k) buf d s"
    by (cases r) (simp_all add: Redis_Add_def)
next
  assume "Sprint k \<noteq> []"
  then show "Redis_Del c ctx k s = Cmd_Del c ctx (Sprint k) s"
    by (simp add: Redis_Del_def)
next
  assume "Sprint k \<noteq> [] \<and> Cmd_Get c ctx (Sprint k) s = (Inl err, s')"
  then show "Redis_Get g c ctx k s = (Inl ErrNotFound, s')"
    by (simp add: Redis_Get_def)
next
  assume "Sprint k \<noteq> [] \<and> Cmd_Get c ctx (Sprint k) s = (Inr [], s')"
  then show "Redis_Get g c ctx k s = (Inl ErrNotFound, s')"
    by (simp add: Redis_Get_def)
next
  assume "Sprint k \<noteq> [] \<and> Cmd_Get c ctx (Sprint k) s = (Inr payload, s') \<and> payload \<noteq> []"
  then show "Redis_Get g c ctx k s =
    (case UnmarshalBinary g payload of Inl derr \<Rightarrow> (Inl derr, s') | Inr en \<Rightarrow> (Inr en, s'))"
    by (simp add: Redis_Get_def)
next
  assume "Sprint k = []"
  then show "Redis_Add g c ctx k e d s = (None, s)"
    by (simp add: Redis_Add_def)
next
  assume "Sprint k = []"
  then show "Redis_Del c ctx k s = (None, s)"
    by (simp add: Redis_Del_def)
next
  assume "Sprint k = []"
  then show "Redis_Get g c ctx k s = (Inl ErrNotFound, s)"
    by (simp add: Redis_Get_def)
qed

text \<open>The theorem on a service that is down, and on one that holds a payload.\<close>

theorem Redis_tier_errors_witness:
  "Redis_Add gob_stub (redis_mock (Some (External ''connection refused''))) Background (KeyInt 1)
     entry_a8m 0 [] = (Some (External ''connection refused''), []) \<and>
   Redis_Del (redis_mock (Some (External ''connection refused''))) Background (KeyInt 1) [] =
     (Some (External ''connection refused''), []) \<and>
   Redis_Get gob_stub (redis_mock (Some (External ''connection refused''))) Background (KeyInt 1) [] =
     (Inl ErrNotFound, []) \<and>
   Redis_Get gob_stub (redis_mock None) Background (KeyInt 1) [(''1'', [])] =
     (Inl ErrNotFound, [(''1'', [])]) \<and>
   Redis_Get gob_stub (redis_mock None) Background (KeyInt 1) [(''1'', [7])] =
     (Inl (External ''gob: stub''), [(''1'', [7])]) \<and>
   Redis_Get gob_stub (redis_mock None) Background (KeyInt 1) [(''1'', [1])] =
     (Inr entry_a8m, [(''1'', [1])]) \<and>
   Redis_Add gob_stub (redis_mock None) Background (KeyString []) entry_a8m 0 [] = (None, []) \<and>
   Redis_Del (redis_mock None) Background (KeyString []) [(''1'', [1])] = (None, [(''1'', [1])]) \<and>
   Redis_Get gob_stub (redis_mock None) Background (KeyString []) [(''1'', [1])] =
     (Inl ErrNotFound, [(''1'', [1])])"
proof -
  let ?down = "redis_mock (Some (External ''connection refused''))"
  let ?up = "redis_mock None"
  have hyps:
    "(Sprint (KeyInt 1) = []) = False"
    "Sprint (KeyInt 1) = ''1''"
    "MarshalBinary gob_stub entry_a8m = Inr [1]"
    "Cmd_Set ?down Background ''1'' [1] 0 [] = (Some (External ''connection refused''), [])"
    "Cmd_Del ?down Background ''1'' [] = (Some (External ''connection refused''), [])"
    "Cmd_Get ?down Background ''1'' [] = (Inl (External ''connection refused''), [])"
    "Cmd_Get ?up Background ''1'' [(''1'', [])] = (Inr [], [(''1'', [])])"
    "Cmd_Get ?up Background ''1'' [(''1'', [7])] = (Inr [7], [(''1'', [7])])"
    "Cmd_Get ?up Background ''1'' [(''1'', [1])] = (Inr [1], [(''1'', [1])])"
    "UnmarshalBinary gob_stub [7] = Inl (External ''gob: stub'')"
    "UnmarshalBinary gob_stub [1] = Inr entry_a8m"
    "Sprint (KeyString []) = []"
    by (simp_all add: Sprint_KeyInt_1 Sprint_KeyString MarshalBinary_def UnmarshalBinary_def
        gob_stub_def entry_a8m_def redis_mock_def)
  have add_err: "Redis_Add gob_stub ?down Background (KeyInt 1) entry_a8m 0 [] =
      (Some (External ''connection refused''), [])"
    using Redis_tier_errors [where k = "KeyInt 1" and g = gob_stub and e = entry_a8m and buf = "[1]"
        and c = ?down and ctx = Background and d = 0 and s = "[]"]
    by (simp add: hyps)
  have del_err: "Redis_Del ?down Background (KeyInt 1) [] = (Some (External ''connection refused''), [])"
    using Redis_tier_errors [where k = "KeyInt 1" and c = ?down and ctx = Background and s = "[]"]
    by (simp add: hyps)
  have get_err: "Redis_Get gob_stub ?down Background (KeyInt 1) [] = (Inl ErrNotFound, [])"
    using Redis_tier_errors [where k = "KeyInt 1" and g = gob_stub and c = ?down and ctx = Background
        and s = "[]" and err = "External ''connection refused''" and s' = "[]"]
    by (simp add: hyps)
  have get_empty: "Redis_Get gob_stub ?up Background (KeyInt 1) [(''1'', [])] =
      (Inl ErrNotFound, [(''1'', [])])"
    using Redis_tier_errors [where k = "KeyInt 1" and g = gob_stub and c = ?up and ctx = Background
        and s = "[(''1'', [])]" and s' = "[(''1'', [])]"]
    by (simp add: hyps)
  have get_corrupt: "Redis_Get gob_stub ?up Background (KeyInt 1) [(''1'', [7])] =
      (Inl (External ''gob: stub''), [(''1'', [7])])"
    using Redis_tier_errors [where k = "KeyInt 1" and g = gob_stub and c = ?up and ctx = Background
        and s = "[(''1'', [7])]" and s' = "[(''1'', [7])]" and payload = "[7]"]
    by (simp add: hyps)
  have get_hit: "Redis_Get gob_stub ?up Background (KeyInt 1) [(''1'', [1])] =
      (Inr entry_a8m, [(''1'', [1])])"
    using Redis_tier_errors [where k = "KeyInt 1" and g = gob_stub and c = ?up and ctx = Background
        and s = "[(''1'', [1])]" and s' = "[(''1'', [1])]" and payload = "[1]"]
    by (simp add: hyps)
  have empty_key:
    "Redis_Add gob_stub ?up Background (KeyString []) entry_a8m 0 [] = (None, []) \<and>
     Redis_Del ?up Background (KeyString []) [(''1'', [1])] = (None, [(''1'', [1])]) \<and>
     Redis_Get gob_stub ?up Background (KeyString []) [(''1'', [1])] = (Inl ErrNotFound, [(''1'', [1])])"
    using Redis_tier_errors [where k = "KeyString []" and g = gob_stub and c = ?up and ctx = Background
        and s = "[]" and e = entry_a8m and d = 0]
      Redis_tier_errors [where k = "KeyString []" and g = gob_stub and c = ?up and ctx = Background
        and s = "[(''1'', [1])]"]
    by (simp add: hyps)
  from add_err del_err get_err get_empty get_corrupt get_hit empty_key show ?thesis
    by (simp only: simp_thms)
qed

section \<open>The multi-tier composer: properties\<close>

lemma multiLevel_Get_append:
  "all_miss pre ctx k s = Some s1 \<Longrightarrow>
   multiLevel_Get (pre @ post) ctx k s = multiLevel_Get post ctx k s1"
proof (induction pre arbitrary: s)
  case Nil
  then show ?case by simp
next
  case (Cons l pre)
  from Cons.prems have miss: "fst (Get l ctx k s) = Inl ErrNotFound"
    and rest: "all_miss pre ctx k (snd (Get l ctx k s)) = Some s1"
    by (simp_all split: if_splits)
  obtain r s' where g: "Get l ctx k s = (r, s')"
    by (cases "Get l ctx k s")
  with miss have "multiLevel_Get ((l # pre) @ post) ctx k s =
             multiLevel_Get (pre @ post) ctx k (snd (Get l ctx k s))"
    by simp
  with Cons.IH[OF rest] show ?case by simp
qed

lemma multiLevel_Add_append:
  "all_added pre ctx k e d s = Some s1 \<Longrightarrow>
   multiLevel_Add (pre @ post) ctx k e d s = multiLevel_Add post ctx k e d s1"
proof (induction pre arbitrary: s)
  case Nil
  then show ?case by simp
next
  case (Cons l pre)
  from Cons.prems have ok: "fst (Add l ctx k e d s) = None"
    and rest: "all_added pre ctx k e d (snd (Add l ctx k e d s)) = Some s1"
    by (simp_all split: if_splits)
  obtain r s' where "Add l ctx k e d s = (r, s')"
    by (cases "Add l ctx k e d s")
  with ok have "multiLevel_Add ((l # pre) @ post) ctx k e d s =
             multiLevel_Add (pre @ post) ctx k e d (snd (Add l ctx k e d s))"
    by simp
  with Cons.IH[OF rest] show ?case by simp
qed

lemma multiLevel_Del_append:
  "all_deleted pre ctx k s = Some s1 \<Longrightarrow>
   multiLevel_Del (pre @ post) ctx k s = multiLevel_Del post ctx k s1"
proof (induction pre arbitrary: s)
  case Nil
  then show ?case by simp
next
  case (Cons l pre)
  from Cons.prems have ok: "fst (Del l ctx k s) = None"
    and rest: "all_deleted pre ctx k (snd (Del l ctx k s)) = Some s1"
    by (simp_all split: if_splits)
  obtain r s' where "Del l ctx k s = (r, s')"
    by (cases "Del l ctx k s")
  with ok have "multiLevel_Del ((l # pre) @ post) ctx k s =
             multiLevel_Del (pre @ post) ctx k (snd (Del l ctx k s))"
    by simp
  with Cons.IH[OF rest] show ?case by simp
qed

text \<open>The cases of \<open>Get\<close> are exhaustive: tiers do not all miss only if one answers first.\<close>

lemma all_miss_first_answer:
  "all_miss levels ctx k s = None \<Longrightarrow>
   \<exists>pre t post s1. levels = pre @ t # post \<and> all_miss pre ctx k s = Some s1 \<and>
     fst (Get t ctx k s1) \<noteq> Inl ErrNotFound"
proof (induction levels arbitrary: s)
  case Nil
  then show ?case by simp
next
  case (Cons l levels)
  show ?case
  proof (cases "fst (Get l ctx k s) = Inl ErrNotFound")
    case True
    with Cons.prems have "all_miss levels ctx k (snd (Get l ctx k s)) = None" by simp
    from Cons.IH[OF this] obtain pre t post s1 where
      "levels = pre @ t # post" "all_miss pre ctx k (snd (Get l ctx k s)) = Some s1"
      "fst (Get t ctx k s1) \<noteq> Inl ErrNotFound" by blast
    with True have "l # levels = (l # pre) @ t # post \<and> all_miss (l # pre) ctx k s = Some s1 \<and>
      fst (Get t ctx k s1) \<noteq> Inl ErrNotFound" by simp
    then show ?thesis by blast
  next
    case False
    then have "l # levels = [] @ l # levels \<and> all_miss [] ctx k s = Some s \<and>
      fst (Get l ctx k s) \<noteq> Inl ErrNotFound" by simp
    then show ?thesis by blast
  qed
qed

text \<open>
  Claim C5. For the multi-tier composer over any list of tiers. \<open>Get\<close>: when the tiers
  \<open>pre\<close> all miss and the next tier \<open>t\<close> hits, the result is that hit and the state the
  one \<open>t\<close> left, whatever tiers \<open>post\<close> follow; when \<open>t\<close> fails with an error other than
  \<open>ErrNotFound\<close>, that error is the result, again without the later tiers; when all
  tiers miss the result is \<open>ErrNotFound\<close>. \<open>Add\<close> and \<open>Del\<close>: when the tiers \<open>pre\<close> all
  succeed and \<open>t\<close> fails, its error is returned and the later tiers are not touched;
  when every tier succeeds, every tier has been applied, in order, and the result is
  success.
\<close>

theorem multiLevel_semantics:
  "(all_miss pre ctx k s = Some s1 \<and> Get t ctx k s1 = (Inr e, s2) \<longrightarrow>
      multiLevel_Get (pre @ t # post) ctx k s = (Inr e, s2)) \<and>
   (all_miss pre ctx k s = Some s1 \<and> Get t ctx k s1 = (Inl err, s2) \<and> err \<noteq> ErrNotFound \<longrightarrow>
      multiLevel_Get (pre @ t # post) ctx k s = (Inl err, s2)) \<and>
   (all_miss levels ctx k s = Some s3 \<longrightarrow>
      multiLevel_Get levels ctx k s = (Inl ErrNotFound, s3)) \<and>
   (all_added pre ctx k en d s = Some a1 \<and> Add t ctx k en d a1 = (Some err, a2) \<longrightarrow>
      multiLevel_Add (pre @ t # post) ctx k en d s = (Some err, a2)) \<and>
   (all_added levels ctx k en d s = Some a3 \<longrightarrow>
      multiLevel_Add levels ctx k en d s = (None, a3)) \<and>
   (all_deleted pre ctx k s = Some d1 \<and> Del t ctx k d1 = (Some err, d2) \<longrightarrow>
      multiLevel_Del (pre @ t # post) ctx k s = (Some err, d2)) \<and>
   (all_deleted levels ctx k s = Some d3 \<longrightarrow>
      multiLevel_Del levels ctx k s = (None, d3))"
proof (intro conjI impI)
  assume "all_miss pre ctx k s = Some s1 \<and> Get t ctx k s1 = (Inr e, s2)"
  then show "multiLevel_Get (pre @ t # post) ctx k s = (Inr e, s2)"
    by (simp add: multiLevel_Get_append)
next
  assume "all_miss pre ctx k s = Some s1 \<and> Get t ctx k s1 = (Inl err, s2) \<and> err \<noteq> ErrNotFound"
  then show "multiLevel_Get (pre @ t # post) ctx k s = (Inl err, s2)"
    by (simp add: multiLevel_Get_append)
next
  assume "all_miss levels ctx k s = Some s3"
  from multiLevel_Get_append[OF this, of "[]"]
  show "multiLevel_Get levels ctx k s = (Inl ErrNotFound, s3)" by simp
next
  assume "all_added pre ctx k en d s = Some a1 \<and> Add t ctx k en d a1 = (Some err, a2)"
  then show "multiLevel_Add (pre @ t # post) ctx k en d s = (Some err, a2)"
    by (simp add: multiLevel_Add_append)
next
  assume "all_added levels ctx k en d s = Some a3"
  from multiLevel_Add_append[OF this, of "[]"]
  show "multiLevel_Add levels ctx k en d s = (None, a3)" by simp
next
  assume "all_deleted pre ctx k s = Some d1 \<and> Del t ctx k d1 = (Some err, d2)"
  then show "multiLevel_Del (pre @ t # post) ctx k s = (Some err, d2)"
    by (simp add: multiLevel_Del_append)
next
  assume "all_deleted levels ctx k s = Some d3"
  from multiLevel_Del_append[OF this, of "[]"]
  show "multiLevel_Del levels ctx k s = (None, d3)" by simp
qed

text \<open>The theorem on journalling tiers: the journal shows which tiers were called.\<close>

theorem multiLevel_semantics_witness:
  "multiLevel_Get
     ([journal_tier ''lru'' (Inl ErrNotFound) None] @
      journal_tier ''redis'' (Inr entry_a8m) None # [journal_tier ''far'' (Inr entry_a8m) None])
     Background (KeyInt 1) [] = (Inr entry_a8m, [''lru.Get'', ''redis.Get'']) \<and>
   multiLevel_Get
     ([journal_tier ''lru'' (Inl ErrNotFound) None] @
      journal_tier ''redis'' (Inl (External ''down'')) None # [journal_tier ''far'' (Inr entry_a8m) None])
     Background (KeyInt 1) [] = (Inl (External ''down''), [''lru.Get'', ''redis.Get'']) \<and>
   multiLevel_Get
     [journal_tier ''lru'' (Inl ErrNotFound) None, journal_tier ''redis'' (Inl ErrNotFound) None]
     Background (KeyInt 1) [] = (Inl ErrNotFound, [''lru.Get'', ''redis.Get'']) \<and>
   multiLevel_Add
     ([journal_tier ''lru'' (Inl ErrNotFound) None] @
      journal_tier ''redis'' (Inl ErrNotFound) (Some (External ''down'')) #
      [journal_tier ''far'' (Inl ErrNotFound) None])
     Background (KeyInt 1) entry_a8m 0 [] = (Some (External ''down''), [''lru.Add'', ''redis.Add'']) \<and>
   multiLevel_Add
     [journal_tier ''lru'' (Inl ErrNotFound) None, journal_tier ''redis'' (Inl ErrNotFound) None]
     Background (KeyInt 1) entry_a8m 0 [] = (None, [''lru.Add'', ''redis.Add'']) \<and>
   multiLevel_Del
     ([journal_tier ''lru'' (Inl ErrNotFound) None] @
      journal_tier ''redis'' (Inl ErrNotFound) (Some (External ''down'')) #
      [journal_tier ''far'' (Inl ErrNotFound) None])
     Background (KeyInt 1) [] = (Some (External ''down''), [''lru.Del'', ''redis.Del'']) \<and>
   multiLevel_Del
     [journal_tier ''lru'' (Inl ErrNotFound) None, journal_tier ''redis'' (Inl ErrNotFound) None]
     Background (KeyInt 1) [] = (None, [''lru.Del'', ''redis.Del''])"
proof -
  let ?lru = "journal_tier ''lru'' (Inl ErrNotFound) None"
  let ?redis = "journal_tier ''redis'' (Inl ErrNotFound) None"
  let ?far = "journal_tier ''far'' (Inr entry_a8m) None"
  let ?farw = "journal_tier ''far'' (Inl ErrNotFound) None"
  let ?k = "KeyInt 1"
  have hyps:
    "all_miss [?lru] Background ?k [] = Some [''lru.Get'']"
    "Get (journal_tier ''redis'' (Inr entry_a8m) None) Background ?k [''lru.Get''] =
       (Inr entry_a8m, [''lru.Get'', ''redis.Get''])"
    "Get (journal_tier ''redis'' (Inl (External ''down'')) None) Background ?k [''lru.Get''] =
       (Inl (External ''down''), [''lru.Get'', ''redis.Get''])"
    "(External ''down'' = ErrNotFound) = False"
    "all_miss [?lru, ?redis] Background ?k [] = Some [''lru.Get'', ''redis.Get'']"
    "all_added [?lru] Background ?k entry_a8m 0 [] = Some [''lru.Add'']"
    "Add (journal_tier ''redis'' (Inl ErrNotFound) (Some (External ''down''))) Background ?k entry_a8m 0
       [''lru.Add''] = (Some (External ''down''), [''lru.Add'', ''redis.Add''])"
    "all_added [?lru, ?redis] Background ?k entry_a8m 0 [] = Some [''lru.Add'', ''redis.Add'']"
    "all_deleted [?lru] Background ?k [] = Some [''lru.Del'']"
    "Del (journal_tier ''redis'' (Inl ErrNotFound) (Some (External ''down''))) Background ?k
       [''lru.Del''] = (Some (External ''down''), [''lru.Del'', ''redis.Del''])"
    "all_deleted [?lru, ?redis] Background ?k [] = Some [''lru.Del'', ''redis.Del'']"
    by (simp_all add: journal_tier_def)
  have get_hit: "multiLevel_Get ([?lru] @ journal_tier ''redis'' (Inr entry_a8m) None # [?far])
      Background ?k [] = (Inr entry_a8m, [''lru.Get'', ''redis.Get''])"
    using multiLevel_semantics [where pre = "[?lru]" and ctx = Background and k = ?k and s = "[]"
        and ?s1.0 = "[''lru.Get'']" and t = "journal_tier ''redis'' (Inr entry_a8m) None"
        and e = entry_a8m and ?s2.0 = "[''lru.Get'', ''redis.Get'']" and post = "[?far]"]
    by (simp only: hyps simp_thms)
  have get_err: "multiLevel_Get ([?lru] @ journal_tier ''redis'' (Inl (External ''down'')) None # [?far])
      Background ?k [] = (Inl (External ''down''), [''lru.Get'', ''redis.Get''])"
    using multiLevel_semantics [where pre = "[?lru]" and ctx = Background and k = ?k and s = "[]"
        and ?s1.0 = "[''lru.Get'']" and t = "journal_tier ''redis'' (Inl (External ''down'')) None"
        and err = "External ''down''" and ?s2.0 = "[''lru.Get'', ''redis.Get'']" and post = "[?far]"]
    by (simp only: hyps simp_thms)
  have get_miss: "multiLevel_Get [?lru, ?redis] Background ?k [] =
      (Inl ErrNotFound, [''lru.Get'', ''redis.Get''])"
    using multiLevel_semantics [where levels = "[?lru, ?redis]" and ctx = Background and k = ?k
        and s = "[]" and ?s3.0 = "[''lru.Get'', ''redis.Get'']"]
    by (simp only: hyps simp_thms)
  have add_err: "multiLevel_Add
      ([?lru] @ journal_tier ''redis'' (Inl ErrNotFound) (Some (External ''down'')) # [?farw])
      Background ?k entry_a8m 0 [] = (Some (External ''down''), [''lru.Add'', ''redis.Add''])"
    using multiLevel_semantics [where pre = "[?lru]" and ctx = Background and k = ?k and s = "[]"
        and en = entry_a8m and d = 0 and ?a1.0 = "[''lru.Add'']"
        and t = "journal_tier ''redis'' (Inl ErrNotFound) (Some (External ''down''))"
        and err = "External ''down''" and ?a2.0 = "[''lru.Add'', ''redis.Add'']" and post = "[?farw]"]
    by (simp only: hyps simp_thms)
  have add_all: "multiLevel_Add [?lru, ?redis] Background ?k entry_a8m 0 [] =
      (None, [''lru.Add'', ''redis.Add''])"
    using multiLevel_semantics [where levels = "[?lru, ?redis]" and ctx = Background and k = ?k
        and s = "[]" and en = entry_a8m and d = 0 and ?a3.0 = "[''lru.Add'', ''redis.Add'']"]
    by (simp only: hyps simp_thms)
  have del_err: "multiLevel_Del
      ([?lru] @ journal_tier ''redis'' (Inl ErrNotFound) (Some (External ''down'')) # [?farw])
      Background ?k [] = (Some (External ''down''), [''lru.Del'', ''redis.Del''])"
    using multiLevel_semantics [where pre = "[?lru]" and ctx = Background and k = ?k and s = "[]"
        and ?d1.0 = "[''lru.Del'']"
        and t = "journal_tier ''redis'' (Inl ErrNotFound) (Some (External ''down''))"
        and err = "External ''down''" and ?d2.0 = "[''lru.Del'', ''redis.Del'']" and post = "[?farw]"]
    by (simp only: hyps simp_thms)
  have del_all: "multiLevel_Del [?lru, ?redis] Background ?k [] = (None, [''lru.Del'', ''redis.Del''])"
    using multiLevel_semantics [where levels = "[?lru, ?redis]" and ctx = Background and k = ?k
        and s = "[]" and ?d3.0 = "[''lru.Del'', ''redis.Del'']"]
    by (simp only: hyps simp_thms)
  from get_hit get_err get_miss add_err add_all del_err del_all show ?thesis
    by (simp only: simp_thms)
qed

section \<open>The driver decorator: properties\<close>

subsection \<open>Running the model on the mock world\<close>

lemmas mock_defs = mock_Driver_def mock_Cache_def mock_Rows_def mock_init_def
  mock_convertAssign_def Background_def ctxOptions_zero_def Stats_zero_def

lemmas run_defs = Query_then_def Query.simps Driver_forward.simps optionsFromContext_def
  Query_onClose.simps recorder_Close.simps recorder_Next_def recorder_Scan_def
  recorder_Columns_def rawCopy_Scan_def Let_def

lemma select_name: "HasPrefix ''SELECT name FROM users'' ''SELECT''"
  by (simp add: HasPrefix_def)

lemma not_select_INSERT:
  "\<not> HasPrefix ''INSERT INTO users DEFAULT VALUES RETURNING id'' ''SELECT''"
  "\<not> HasPrefix ''INSERT INTO users DEFAULT VALUES RETURNING id'' ''select''"
  by (simp_all add: HasPrefix_def)

lemma mock_Query_miss:
  "Query (mock_Driver rows addErr None withLog) Background ''SELECT name FROM users''
     (ArgSlice []) RowsPtr (Stats_zero, mock_init) =
   (Inr (Recorder (mock_recorder (mock_Driver rows addErr None withLog) [] False)),
    \<lparr>Gets = 1, Hits = 0, Errors = 0\<rparr>, mock_opened rows)"
  by (simp add: run_defs mock_defs select_name mock_recorder_def mock_opts_def mock_opened_def)

lemma mock_options:
  "optionsFromContext (mock_Driver rows addErr None withLog) Background ''SELECT name FROM users''
     [] mock_init = ((mock_opts, None), mock_init\<lparr>mock_hashes := 1\<rparr>)"
  by (simp add: run_defs mock_defs mock_opts_def)

lemma mock_iterate_all:
  "recorder_calls mock_convertAssign (mock_recorder d [] False)
     [CallNext, CallScan [()], CallNext] (\<lparr>Gets = 1, Hits = 0, Errors = 0\<rparr>, mock_opened [[VString ''a8m'']]) =
   ([NextResult True, ScanResult None, NextResult False],
    mock_recorder d [[VString ''a8m'']] True,
    \<lparr>Gets = 1, Hits = 0, Errors = 0\<rparr>, mock_opened [])"
  by (simp add: run_defs mock_defs mock_recorder_def mock_opened_def)

lemma mock_Close_stores:
  "recorder_Close (mock_recorder (mock_Driver rows None None withLog) [[VString ''a8m'']] True)
     (st, mock_opened []) = (None, st, mock_served 0)"
  by (simp add: run_defs mock_defs mock_recorder_def mock_opts_def mock_opened_def mock_served_def)

lemma mock_Query_hit:
  "Query (mock_Driver rows addErr None withLog) Background ''SELECT name FROM users''
     (ArgSlice []) RowsPtr (st, mock_served n) =
   (Inr (Repeater \<lparr>rep_columns = [], rep_values = [[VString ''a8m'']]\<rparr>),
    st\<lparr>Gets := Gets st + 1, Hits := Hits st + 1\<rparr>, mock_served (Suc n))"
  by (simp add: run_defs mock_defs select_name mock_served_def)

subsection \<open>Statements that are not reads\<close>

text \<open>
  Claim C6. For a statement whose text begins with neither \<open>SELECT\<close> nor \<open>select\<close>,
  \<open>Driver.Query\<close> is the wrapped driver's \<open>Query\<close> on the same arguments and the same
  world, and the counters are returned as they were. The result does not depend on the
  hasher, the store, the log sink or the default TTL, whatever effects those would have:
  none of them is called.
\<close>

theorem Query_forwards_non_select:
  "\<not> HasPrefix query ''SELECT'' \<and> \<not> HasPrefix query ''select'' \<longrightarrow>
     Query d ctx query args v (st, w) =
       (case Driver_Query d ctx query args v w of
          (Inl err, w') \<Rightarrow> (Inl err, st, w')
        | (Inr rows, w') \<Rightarrow> (Inr (Underlying rows), st, w')) \<and>
     Query (d\<lparr>TTL := t', Cache := c', Hash := h', Log := l'\<rparr>) ctx query args v (st, w) =
       Query d ctx query args v (st, w)"
  by (simp add: Query.simps Driver_forward.simps)

text \<open>
  The \<open>INSERT ... RETURNING\<close> of the repository's test: one call of the wrapped driver,
  no call of the hasher, an empty store, counters at zero.
\<close>

theorem Query_forwards_non_select_witness:
  "Query (mock_Driver [[VInt64 1]] None None False) Background
      ''INSERT INTO users DEFAULT VALUES RETURNING id'' (ArgSlice []) RowsPtr (Stats_zero, mock_init) =
     (Inr (Underlying mock_Rows), Stats_zero,
      mock_init\<lparr>mock_rows := [[VInt64 1]], mock_current := None, mock_queries := 1\<rparr>)"
  using Query_forwards_non_select [where query = "''INSERT INTO users DEFAULT VALUES RETURNING id''"
      and d = "mock_Driver [[VInt64 1]] None None False" and ctx = Background and args = "ArgSlice []"
      and v = RowsPtr and st = Stats_zero and w = mock_init]
  by (simp add: not_select_INSERT mock_Driver_def mock_init_def)

subsection \<open>A failing \<open>Del\<close> under the evict option\<close>

lemma Query_evict_Del_forward:
  "(HasPrefix query ''SELECT'' \<or> HasPrefix query ''select'') \<and>
   ctxOptionsKey ctx = Some c \<and> evict c \<and>
   (if key c = KeyNil then Hash d query argv w else (Inr (key c), w)) = (Inr k, w1) \<and>
   Del (Cache d) ctx k w1 = (Some err, w2) \<longrightarrow>
     Query d ctx query (ArgSlice argv) RowsPtr (st, w) =
       (case Driver_Query d ctx query (ArgSlice argv) RowsPtr w2 of
          (Inl e, w3) \<Rightarrow> (Inl e, st, w3)
        | (Inr rows, w3) \<Rightarrow> (Inr (Underlying rows), st, w3))"
proof
  assume a: "(HasPrefix query ''SELECT'' \<or> HasPrefix query ''select'') \<and>
   ctxOptionsKey ctx = Some c \<and> evict c \<and>
   (if key c = KeyNil then Hash d query argv w else (Inr (key c), w)) = (Inr k, w1) \<and>
   Del (Cache d) ctx k w1 = (Some err, w2)"
  then have opts: "optionsFromContext d ctx query argv w =
      ((let o1 = c\<lparr>key := k\<rparr> in if ttl o1 = 0 then o1\<lparr>ttl := TTL d\<rparr> else o1, Some err), w2)"
    by (simp add: optionsFromContext_def Let_def)
  from a have sel: "(\<not> HasPrefix query ''SELECT'' \<and> \<not> HasPrefix query ''select'') = False"
    by blast
  show "Query d ctx query (ArgSlice argv) RowsPtr (st, w) =
       (case Driver_Query d ctx query (ArgSlice argv) RowsPtr w2 of
          (Inl e, w3) \<Rightarrow> (Inl e, st, w3)
        | (Inr rows, w3) \<Rightarrow> (Inr (Underlying rows), st, w3))"
    by (simp only: Query.simps sel opts if_False out_any.case args_any.case prod.case
        option.case Driver_forward.simps)
qed

text \<open>
  Claim C10. For a read statement with a \<open>*sql.Rows\<close> and a \<open>[]any\<close>: when the context
  carries the evict option, the key is the context's or, that being \<open>nil\<close>, the one the
  hasher returns, and the store's \<open>Del\<close> of that key fails, then \<open>Driver.Query\<close> is the
  wrapped driver's \<open>Query\<close> run in the world \<open>Del\<close> left: its result is the only result,
  the error of \<open>Del\<close> is dropped, and the counters are unchanged (no get, hit or error
  is counted). The log sink is not called: the result is the same for every sink.
\<close>

theorem Query_evict_Del_error:
  "(HasPrefix query ''SELECT'' \<or> HasPrefix query ''select'') \<and>
   ctxOptionsKey ctx = Some c \<and> evict c \<and>
   (if key c = KeyNil then Hash d query argv w else (Inr (key c), w)) = (Inr k, w1) \<and>
   Del (Cache d) ctx k w1 = (Some err, w2) \<longrightarrow>
     Query d ctx query (ArgSlice argv) RowsPtr (st, w) =
       (case Driver_Query d ctx query (ArgSlice argv) RowsPtr w2 of
          (Inl e, w3) \<Rightarrow> (Inl e, st, w3)
        | (Inr rows, w3) \<Rightarrow> (Inr (Underlying rows), st, w3)) \<and>
     Query (d\<lparr>Log := l'\<rparr>) ctx query (ArgSlice argv) RowsPtr (st, w) =
       Query d ctx query (ArgSlice argv) RowsPtr (st, w)"
proof
  assume a: "(HasPrefix query ''SELECT'' \<or> HasPrefix query ''select'') \<and>
   ctxOptionsKey ctx = Some c \<and> evict c \<and>
   (if key c = KeyNil then Hash d query argv w else (Inr (key c), w)) = (Inr k, w1) \<and>
   Del (Cache d) ctx k w1 = (Some err, w2)"
  from Query_evict_Del_forward[of query ctx c d argv w k w1 err w2 st] a
  have 1: "Query d ctx query (ArgSlice argv) RowsPtr (st, w) =
       (case Driver_Query d ctx query (ArgSlice argv) RowsPtr w2 of
          (Inl e, w3) \<Rightarrow> (Inl e, st, w3)
        | (Inr rows, w3) \<Rightarrow> (Inr (Underlying rows), st, w3))"
    by blast
  from a have "(if key c = KeyNil then Hash (d\<lparr>Log := l'\<rparr>) query argv w else (Inr (key c), w)) =
      (Inr k, w1)"
    by (cases "key c = KeyNil") simp_all
  with Query_evict_Del_forward[of query ctx c "d\<lparr>Log := l'\<rparr>" argv w k w1 err w2 st] a
  have 2: "Query (d\<lparr>Log := l'\<rparr>) ctx query (ArgSlice argv) RowsPtr (st, w) =
       (case Driver_Query d ctx query (ArgSlice argv) RowsPtr w2 of
          (Inl e, w3) \<Rightarrow> (Inl e, st, w3)
        | (Inr rows, w3) \<Rightarrow> (Inr (Underlying rows), st, w3))"
    by simp
  from 1 2 show "Query d ctx query (ArgSlice argv) RowsPtr (st, w) =
       (case Driver_Query d ctx query (ArgSlice argv) RowsPtr w2 of
          (Inl e, w3) \<Rightarrow> (Inl e, st, w3)
        | (Inr rows, w3) \<Rightarrow> (Inr (Underlying rows), st, w3)) \<and>
     Query (d\<lparr>Log := l'\<rparr>) ctx query (ArgSlice argv) RowsPtr (st, w) =
       Query d ctx query (ArgSlice argv) RowsPtr (st, w)"
    by simp
qed

text \<open>
  On the mock world with a store whose \<open>Del\<close> fails and a log sink configured: the hasher
  and the wrapped driver are called once each, nothing is logged, the counters stay zero.
\<close>

theorem Query_evict_Del_error_witness:
  "Query (mock_Driver [[VString ''a8m'']] None (Some (External ''del failed'')) True) (Evict Background)
      ''SELECT name FROM users'' (ArgSlice []) RowsPtr (Stats_zero, mock_init) =
     (Inr (Underlying mock_Rows), Stats_zero,
      mock_init\<lparr>mock_rows := [[VString ''a8m'']], mock_current := None, mock_queries := 1,
        mock_hashes := 1\<rparr>)"
proof -
  let ?d = "mock_Driver [[VString ''a8m'']] None (Some (External ''del failed'')) True"
  have hyps:
    "HasPrefix ''SELECT name FROM users'' ''SELECT''"
    "ctxOptionsKey (Evict Background) = Some (ctxOptions_zero\<lparr>skip := True, evict := True\<rparr>)"
    "evict (ctxOptions_zero\<lparr>skip := True, evict := True\<rparr>)"
    "(if key (ctxOptions_zero\<lparr>skip := True, evict := True\<rparr>) = KeyNil
      then Hash ?d ''SELECT name FROM users'' [] mock_init
      else (Inr (key (ctxOptions_zero\<lparr>skip := True, evict := True\<rparr>)), mock_init)) =
       (Inr (KeyInt 1), mock_init\<lparr>mock_hashes := 1\<rparr>)"
    "Del (Cache ?d) (Evict Background) (KeyInt 1) (mock_init\<lparr>mock_hashes := 1\<rparr>) =
       (Some (External ''del failed''), mock_init\<lparr>mock_hashes := 1\<rparr>)"
    by (simp_all add: select_name Evict_def Background_def ctxOptions_zero_def mock_Driver_def
        mock_Cache_def mock_init_def)
  show ?thesis
    using Query_evict_Del_error [where query = "''SELECT name FROM users''" and d = ?d
        and ctx = "Evict Background" and c = "ctxOptions_zero\<lparr>skip := True, evict := True\<rparr>"
        and argv = "[]" and w = mock_init and k = "KeyInt 1" and ?w1.0 = "mock_init\<lparr>mock_hashes := 1\<rparr>"
        and err = "External ''del failed''" and ?w2.0 = "mock_init\<lparr>mock_hashes := 1\<rparr>"
        and st = Stats_zero] hyps
    by (simp add: mock_Driver_def mock_init_def)
qed

section \<open>The recorder: properties\<close>

lemma recorder_methods_keep_onClose:
  "rec_onClose (fst (snd (recorder_Next r w))) = rec_onClose r"
  "rec_onClose (fst (snd (recorder_Scan ca r dest w))) = rec_onClose r"
  "rec_onClose (fst (snd (recorder_Columns r w))) = rec_onClose r"
  by (auto simp: recorder_Next_def recorder_Scan_def recorder_Columns_def Let_def
      split: prod.splits sum.splits option.splits)

lemma recorder_calls_keep_onClose:
  "recorder_calls ca r calls \<sigma> = (rs, r', \<sigma>') \<Longrightarrow> rec_onClose r' = rec_onClose r"
proof (induction calls arbitrary: r \<sigma> rs r' \<sigma>')
  case Nil
  then show ?case by (cases \<sigma>) simp
next
  case (Cons c calls)
  obtain st w where \<sigma>: "\<sigma> = (st, w)" by (cases \<sigma>)
  show ?case
  proof (cases c)
    case CallNext
    obtain b r1 w1 where n: "recorder_Next r w = (b, r1, w1)" by (cases "recorder_Next r w")
    obtain rs1 r2 \<sigma>2 where c: "recorder_calls ca r1 calls (st, w1) = (rs1, r2, \<sigma>2)"
      by (cases "recorder_calls ca r1 calls (st, w1)")
    from Cons.prems CallNext \<sigma> n c have "r' = r2" by simp
    moreover from Cons.IH[OF c] have "rec_onClose r2 = rec_onClose r1" .
    moreover from recorder_methods_keep_onClose(1)[of r w] n have "rec_onClose r1 = rec_onClose r" by simp
    ultimately show ?thesis by simp
  next
    case (CallScan dest)
    obtain b r1 w1 where n: "recorder_Scan ca r dest w = (b, r1, w1)" by (cases "recorder_Scan ca r dest w")
    obtain rs1 r2 \<sigma>2 where c: "recorder_calls ca r1 calls (st, w1) = (rs1, r2, \<sigma>2)"
      by (cases "recorder_calls ca r1 calls (st, w1)")
    from Cons.prems CallScan \<sigma> n c have "r' = r2" by simp
    moreover from Cons.IH[OF c] have "rec_onClose r2 = rec_onClose r1" .
    moreover from recorder_methods_keep_onClose(2)[of ca r dest w] n have "rec_onClose r1 = rec_onClose r" by simp
    ultimately show ?thesis by simp
  next
    case CallColumns
    obtain b r1 w1 where n: "recorder_Columns r w = (b, r1, w1)" by (cases "recorder_Columns r w")
    obtain rs1 r2 \<sigma>2 where c: "recorder_calls ca r1 calls (st, w1) = (rs1, r2, \<sigma>2)"
      by (cases "recorder_calls ca r1 calls (st, w1)")
    from Cons.prems CallColumns \<sigma> n c have "r' = r2" by simp
    moreover from Cons.IH[OF c] have "rec_onClose r2 = rec_onClose r1" .
    moreover from recorder_methods_keep_onClose(3)[of r w] n have "rec_onClose r1 = rec_onClose r" by simp
    ultimately show ?thesis by simp
  next
    case CallClose
    obtain e \<sigma>1 where n: "recorder_Close r (st, w) = (e, \<sigma>1)" by (cases "recorder_Close r (st, w)")
    obtain rs1 r2 \<sigma>2 where c: "recorder_calls ca r calls \<sigma>1 = (rs1, r2, \<sigma>2)"
      by (cases "recorder_calls ca r calls \<sigma>1")
    from Cons.prems CallClose \<sigma> n c have "r' = r2" by simp
    moreover from Cons.IH[OF c] have "rec_onClose r2 = rec_onClose r" .
    ultimately show ?thesis by simp
  qed
qed

lemma Query_Recorder_onClose:
  assumes "Query d ctx query (ArgSlice argv) RowsPtr (st, w) = (Inr (Recorder r), \<sigma>')"
    and "optionsFromContext d ctx query argv w = ((opts, oerr), w')"
  shows "rec_onClose r = Query_onClose d ctx opts"
  using assms
  by (auto simp: Query.simps Driver_forward.simps Let_def
      split: if_splits prod.splits sum.splits option.splits)

lemma recorder_Close_onClose:
  assumes "cs_Close (rec_ColumnScanner r) w = (None, w1)"
    and "cs_Err (rec_ColumnScanner r) w1 = None \<or> rec_done r"
  shows "recorder_Close r (st, w) = (None, rec_onClose r (rec_columns r) (rec_values r) (st, w1))"
  using assms by (auto simp: recorder_Close.simps)

lemma recorder_Close_no_onClose:
  assumes "cs_Close (rec_ColumnScanner r) w = (None, w1)"
    and "cs_Err (rec_ColumnScanner r) w1 \<noteq> None" and "\<not> rec_done r"
  shows "recorder_Close r (st, w) = (None, st, w1)"
  using assms by (auto simp: recorder_Close.simps)

subsection \<open>Partial iteration\<close>

text \<open>
  Claim C1 says that closing a recorder after a partial iteration hands no entry to the
  store. The code does hand one over. The wrapped driver has two rows to deliver; the
  caller reads the first (\<open>Next\<close>, \<open>Scan\<close>) and closes. The stream reports no error, so
  the test \<open>err == nil || r.done\<close> of \<open>recorder.Close\<close> holds with \<open>done\<close> false, and
  \<open>onClose\<close> calls \<open>Add\<close>: the store holds a one-row entry while the second row is
  still unread. The same query asked again is then a hit, served that one row without a
  call of the wrapped driver.
\<close>

theorem recorder_Close_partial_iteration:
  "Query_then mock_convertAssign
     (mock_Driver [[VString ''a8m''], [VString ''nati'']] None None False) Background
     ''SELECT name FROM users'' (ArgSlice []) [CallNext, CallScan [()], CallClose]
     (Stats_zero, mock_init) =
   Some ([NextResult True, ScanResult None, CloseResult None],
         \<lparr>Gets = 1, Hits = 0, Errors = 0\<rparr>,
         \<lparr>mock_rows = [[VString ''nati'']], mock_current = Some [VString ''a8m''],
          mock_store = [(KeyInt 1, \<lparr>Columns = [], Values = [[VString ''a8m'']]\<rparr>)],
          mock_queries = 1, mock_hashes = 1, mock_logged = []\<rparr>) \<and>
   Query (mock_Driver [[VString ''a8m''], [VString ''nati'']] None None False) Background
     ''SELECT name FROM users'' (ArgSlice []) RowsPtr
     (\<lparr>Gets = 1, Hits = 0, Errors = 0\<rparr>,
      \<lparr>mock_rows = [[VString ''nati'']], mock_current = Some [VString ''a8m''],
       mock_store = [(KeyInt 1, \<lparr>Columns = [], Values = [[VString ''a8m'']]\<rparr>)],
       mock_queries = 1, mock_hashes = 1, mock_logged = []\<rparr>) =
   (Inr (Repeater \<lparr>rep_columns = [], rep_values = [[VString ''a8m'']]\<rparr>),
    \<lparr>Gets = 2, Hits = 1, Errors = 0\<rparr>,
    \<lparr>mock_rows = [[VString ''nati'']], mock_current = Some [VString ''a8m''],
     mock_store = [(KeyInt 1, \<lparr>Columns = [], Values = [[VString ''a8m'']]\<rparr>)],
     mock_queries = 1, mock_hashes = 2, mock_logged = []\<rparr>)"
  by (simp add: run_defs mock_defs select_name)

subsection \<open>A failing \<open>Add\<close> on close\<close>

text \<open>
  Claim C2 says that a failed \<open>Add\<close> on close is counted in \<open>Errors\<close>. With no log sink
  configured it is not: the miss path of the repository's Redis test, where the remote
  \<open>SET\<close> answers \<open>redis.Nil\<close>. After the full iteration and \<open>Close\<close> the counters are
  \<open>{Gets: 1, Hits: 0, Errors: 0}\<close>, although \<open>Add\<close> fails in that world.
\<close>

theorem recorder_Close_Add_error_counterexample:
  "Log (mock_Driver [[VString ''a8m'']] (Some RedisNil) None False) = None \<and>
   Query_then mock_convertAssign
     (mock_Driver [[VString ''a8m'']] (Some RedisNil) None False) Background
     ''SELECT name FROM users'' (ArgSlice []) [CallNext, CallScan [()], CallNext, CallClose]
     (Stats_zero, mock_init) =
   Some ([NextResult True, ScanResult None, NextResult False, CloseResult None],
         \<lparr>Gets = 1, Hits = 0, Errors = 0\<rparr>,
         \<lparr>mock_rows = [], mock_current = None, mock_store = [],
          mock_queries = 1, mock_hashes = 1, mock_logged = []\<rparr>) \<and>
   Add (Cache (mock_Driver [[VString ''a8m'']] (Some RedisNil) None False)) Background (KeyInt 1)
     \<lparr>Columns = [], Values = [[VString ''a8m'']]\<rparr> 0
     \<lparr>mock_rows = [], mock_current = None, mock_store = [],
      mock_queries = 1, mock_hashes = 1, mock_logged = []\<rparr> =
   (Some RedisNil,
    \<lparr>mock_rows = [], mock_current = None, mock_store = [],
     mock_queries = 1, mock_hashes = 1, mock_logged = []\<rparr>)"
  by (simp add: run_defs mock_defs select_name)

text \<open>
  Claim C2, amended. \<open>Query\<close> on the miss path installs a recorder; after any calls of
  the caller on it, when \<open>Close\<close> of the stream succeeds, the entry is handed to \<open>Add\<close>
  (no stream error, or end of stream seen) and \<open>Add\<close> fails with \<open>err\<close>: \<open>Close\<close>
  returns success; if a log sink is configured the sink receives the key and \<open>err\<close> and
  \<open>Errors\<close> is incremented by one; if none is configured the failure is dropped and no
  counter changes.
\<close>

theorem recorder_Close_Add_error:
  "Query d ctx query (ArgSlice argv) RowsPtr (st0, w0) = (Inr (Recorder r0), \<sigma>1) \<and>
   optionsFromContext d ctx query argv w0 = ((opts, oerr), w') \<and>
   recorder_calls ca r0 calls \<sigma>1 = (rs, r, st, w) \<and>
   cs_Close (rec_ColumnScanner r) w = (None, wa) \<and>
   (cs_Err (rec_ColumnScanner r) wa = None \<or> rec_done r) \<and>
   Add (Cache d) ctx (key opts) \<lparr>Columns = rec_columns r, Values = rec_values r\<rparr> (ttl opts) wa =
     (Some err, wb) \<longrightarrow>
   recorder_Close r (st, w) =
     (None,
      case Log d of
        None \<Rightarrow> (st, wb)
      | Some logf \<Rightarrow> (st\<lparr>Errors := Errors st + 1\<rparr>, logf (FailedStoringEntry (key opts) err) wb))"
proof
  assume a: "Query d ctx query (ArgSlice argv) RowsPtr (st0, w0) = (Inr (Recorder r0), \<sigma>1) \<and>
   optionsFromContext d ctx query argv w0 = ((opts, oerr), w') \<and>
   recorder_calls ca r0 calls \<sigma>1 = (rs, r, st, w) \<and>
   cs_Close (rec_ColumnScanner r) w = (None, wa) \<and>
   (cs_Err (rec_ColumnScanner r) wa = None \<or> rec_done r) \<and>
   Add (Cache d) ctx (key opts) \<lparr>Columns = rec_columns r, Values = rec_values r\<rparr> (ttl opts) wa =
     (Some err, wb)"
  then have q: "Query d ctx query (ArgSlice argv) RowsPtr (st0, w0) = (Inr (Recorder r0), \<sigma>1)"
    and o: "optionsFromContext d ctx query argv w0 = ((opts, oerr), w')"
    and c: "recorder_calls ca r0 calls \<sigma>1 = (rs, r, st, w)"
    and cl: "cs_Close (rec_ColumnScanner r) w = (None, wa)"
    and e: "cs_Err (rec_ColumnScanner r) wa = None \<or> rec_done r"
    by simp_all
  have "rec_onClose r0 = Query_onClose d ctx opts"
    using q o by (rule Query_Recorder_onClose)
  moreover have "rec_onClose r = rec_onClose r0"
    using c by (rule recorder_calls_keep_onClose)
  ultimately have oc: "rec_onClose r = Query_onClose d ctx opts" by simp
  have "recorder_Close r (st, w) =
      (None, rec_onClose r (rec_columns r) (rec_values r) (st, wa))"
    using cl e by (rule recorder_Close_onClose)
  with oc a show "recorder_Close r (st, w) =
     (None,
      case Log d of
        None \<Rightarrow> (st, wb)
      | Some logf \<Rightarrow> (st\<lparr>Errors := Errors st + 1\<rparr>, logf (FailedStoringEntry (key opts) err) wb))"
    by (simp add: Query_onClose.simps split: option.splits)
qed

text \<open>The theorem on the mock world, with the sink configured and without.\<close>

theorem recorder_Close_Add_error_witness:
  "recorder_Close (mock_recorder (mock_Driver [[VString ''a8m'']] (Some RedisNil) None True)
       [[VString ''a8m'']] True)
     (\<lparr>Gets = 1, Hits = 0, Errors = 0\<rparr>, mock_opened []) =
   (None, \<lparr>Gets = 1, Hits = 0, Errors = 1\<rparr>,
    (mock_opened [])\<lparr>mock_logged := [FailedStoringEntry (KeyInt 1) RedisNil]\<rparr>) \<and>
   recorder_Close (mock_recorder (mock_Driver [[VString ''a8m'']] (Some RedisNil) None False)
       [[VString ''a8m'']] True)
     (\<lparr>Gets = 1, Hits = 0, Errors = 0\<rparr>, mock_opened []) =
   (None, \<lparr>Gets = 1, Hits = 0, Errors = 0\<rparr>, mock_opened [])"
proof -
  let ?st = "\<lparr>Gets = 1, Hits = 0, Errors = 0\<rparr>"
  have closing:
    "cs_Close (rec_ColumnScanner (mock_recorder d [[VString ''a8m'']] True)) (mock_opened []) =
       (None, mock_opened [])"
    "cs_Err (rec_ColumnScanner (mock_recorder d [[VString ''a8m'']] True)) (mock_opened []) = None"
    "Add (Cache (mock_Driver [[VString ''a8m'']] (Some RedisNil) None withLog)) Background (key mock_opts)
       \<lparr>Columns = rec_columns (mock_recorder d [[VString ''a8m'']] True),
          Values = rec_values (mock_recorder d [[VString ''a8m'']] True)\<rparr> (ttl mock_opts)
       (mock_opened []) = (Some RedisNil, mock_opened [])"
    for d withLog
    by (simp_all add: mock_recorder_def mock_defs mock_opts_def)
  have logged: "recorder_Close (mock_recorder (mock_Driver [[VString ''a8m'']] (Some RedisNil) None True)
       [[VString ''a8m'']] True) (?st, mock_opened []) =
     (None,
      case Log (mock_Driver [[VString ''a8m'']] (Some RedisNil) None True) of
        None \<Rightarrow> (?st, mock_opened [])
      | Some logf \<Rightarrow> (?st\<lparr>Errors := Errors ?st + 1\<rparr>,
          logf (FailedStoringEntry (key mock_opts) RedisNil) (mock_opened [])))"
    using recorder_Close_Add_error [where d = "mock_Driver [[VString ''a8m'']] (Some RedisNil) None True"
        and ctx = Background and query = "''SELECT name FROM users''" and argv = "[]"
        and ?st0.0 = Stats_zero and ?w0.0 = mock_init
        and ?r0.0 = "mock_recorder (mock_Driver [[VString ''a8m'']] (Some RedisNil) None True) [] False"
        and ?\<sigma>1.0 = "(?st, mock_opened [[VString ''a8m'']])"
        and opts = mock_opts and oerr = None and w' = "mock_init\<lparr>mock_hashes := 1\<rparr>"
        and ca = mock_convertAssign and calls = "[CallNext, CallScan [()], CallNext]"
        and rs = "[NextResult True, ScanResult None, NextResult False]"
        and r = "mock_recorder (mock_Driver [[VString ''a8m'']] (Some RedisNil) None True) [[VString ''a8m'']] True"
        and st = ?st and w = "mock_opened []" and wa = "mock_opened []" and err = RedisNil
        and wb = "mock_opened []"]
    by (simp only: mock_Query_miss mock_options mock_iterate_all closing simp_thms)
  have silent: "recorder_Close (mock_recorder (mock_Driver [[VString ''a8m'']] (Some RedisNil) None False)
       [[VString ''a8m'']] True) (?st, mock_opened []) =
     (None,
      case Log (mock_Driver [[VString ''a8m'']] (Some RedisNil) None False) of
        None \<Rightarrow> (?st, mock_opened [])
      | Some logf \<Rightarrow> (?st\<lparr>Errors := Errors ?st + 1\<rparr>,
          logf (FailedStoringEntry (key mock_opts) RedisNil) (mock_opened [])))"
    using recorder_Close_Add_error [where d = "mock_Driver [[VString ''a8m'']] (Some RedisNil) None False"
        and ctx = Background and query = "''SELECT name FROM users''" and argv = "[]"
        and ?st0.0 = Stats_zero and ?w0.0 = mock_init
        and ?r0.0 = "mock_recorder (mock_Driver [[VString ''a8m'']] (Some RedisNil) None False) [] False"
        and ?\<sigma>1.0 = "(?st, mock_opened [[VString ''a8m'']])"
        and opts = mock_opts and oerr = None and w' = "mock_init\<lparr>mock_hashes := 1\<rparr>"
        and ca = mock_convertAssign and calls = "[CallNext, CallScan [()], CallNext]"
        and rs = "[NextResult True, ScanResult None, NextResult False]"
        and r = "mock_recorder (mock_Driver [[VString ''a8m'']] (Some RedisNil) None False) [[VString ''a8m'']] True"
        and st = ?st and w = "mock_opened []" and wa = "mock_opened []" and err = RedisNil
        and wb = "mock_opened []"]
    by (simp only: mock_Query_miss mock_options mock_iterate_all closing simp_thms)
  have log_on: "Log (mock_Driver [[VString ''a8m'']] (Some RedisNil) None True) =
      Some (\<lambda>msg w. w\<lparr>mock_logged := msg # mock_logged w\<rparr>)"
    and log_off: "Log (mock_Driver [[VString ''a8m'']] (Some RedisNil) None False) = None"
    by (simp_all add: mock_Driver_def)
  show ?thesis
    unfolding logged silent log_on log_off
    by (simp add: mock_opts_def mock_opened_def)
qed

section \<open>The counters: properties\<close>

lemma Query_Stats:
  assumes "Query d ctx query args v (st, w) = (res, st', w')"
  shows "st' = st \<or> st' = st\<lparr>Gets := Gets st + 1\<rparr> \<or>
         st' = st\<lparr>Gets := Gets st + 1, Hits := Hits st + 1\<rparr>"
  using assms
  by (auto simp: Query.simps Driver_forward.simps Let_def
      split: if_splits prod.splits sum.splits option.splits out_any.splits args_any.splits)

lemma Query_onClose_Stats:
  assumes "Query_onClose d ctx opts cols vals (st, w) = (st', w')"
  shows "st' = st \<or> st' = st\<lparr>Errors := Errors st + 1\<rparr>"
  using assms
  by (auto simp: Query_onClose.simps split: prod.splits option.splits)

lemma recorder_Close_Stats:
  assumes "rec_onClose r = Query_onClose d ctx opts"
    and "recorder_Close r (st, w) = (err, st', w')"
  shows "st' = st \<or> st' = st\<lparr>Errors := Errors st + 1\<rparr>"
  using assms Query_onClose_Stats[of d ctx opts "rec_columns r" "rec_values r" st _ st' w']
  by (auto simp: recorder_Close.simps split: prod.splits option.splits if_splits)

lemma op_step_Stats:
  assumes "op_step d \<sigma> \<sigma>'"
  shows "fst \<sigma>' = fst \<sigma> \<or>
         fst \<sigma>' = (fst \<sigma>)\<lparr>Gets := Gets (fst \<sigma>) + 1\<rparr> \<or>
         fst \<sigma>' = (fst \<sigma>)\<lparr>Gets := Gets (fst \<sigma>) + 1, Hits := Hits (fst \<sigma>) + 1\<rparr> \<or>
         fst \<sigma>' = (fst \<sigma>)\<lparr>Errors := Errors (fst \<sigma>) + 1\<rparr>"
  using assms
proof cases
  case (step_Query ctx query args v res)
  obtain st w st' w' where "\<sigma> = (st, w)" "\<sigma>' = (st', w')"
    by (cases \<sigma>, cases \<sigma>')
  with step_Query Query_Stats[of d ctx query args v st w res st' w'] show ?thesis by auto
next
  case (step_Close r ctx opts err)
  obtain st w st' w' where "\<sigma> = (st, w)" "\<sigma>' = (st', w')"
    by (cases \<sigma>, cases \<sigma>')
  with step_Close recorder_Close_Stats[of r d ctx opts st w err st' w'] show ?thesis by auto
qed

lemma unat_inc: "unat (x :: 64 word) < 2 ^ 64 - 1 \<Longrightarrow> unat (x + 1) = Suc (unat x)"
  by (simp add: unat_word_ariths)

lemma unat_inc_le: "unat (x :: 64 word) < 2 ^ 64 - 1 \<Longrightarrow> x \<le> x + 1"
  by (simp add: word_le_nat_alt unat_inc)

lemma reach_bounds:
  "reach d n \<sigma> \<Longrightarrow> n < 2 ^ 64 \<Longrightarrow>
   unat (Hits (fst \<sigma>)) \<le> unat (Gets (fst \<sigma>)) \<and> unat (Gets (fst \<sigma>)) \<le> n \<and>
   unat (Errors (fst \<sigma>)) \<le> n"
proof (induction rule: reach.induct)
  case (reach_init w)
  then show ?case by (simp add: Stats_zero_def)
next
  case (reach_step n \<sigma> \<sigma>')
  then have ih: "unat (Hits (fst \<sigma>)) \<le> unat (Gets (fst \<sigma>))" "unat (Gets (fst \<sigma>)) \<le> n"
    "unat (Errors (fst \<sigma>)) \<le> n" and n: "n < 2 ^ 64 - 1"
    by simp_all
  from ih n have g: "unat (Gets (fst \<sigma>) + 1) = Suc (unat (Gets (fst \<sigma>)))"
    and h: "unat (Hits (fst \<sigma>) + 1) = Suc (unat (Hits (fst \<sigma>)))"
    and e: "unat (Errors (fst \<sigma>) + 1) = Suc (unat (Errors (fst \<sigma>)))"
    by (simp_all add: unat_inc)
  from op_step_Stats[OF reach_step.hyps(2)] show ?case
    using ih g h e by (elim disjE) simp_all
next
  case (reach_world n st w w')
  then show ?case by simp
qed

lemma op_step_monotone:
  assumes "reach d n \<sigma>" and "Suc n < 2 ^ 64" and "op_step d \<sigma> \<sigma>'"
  shows "Gets (fst \<sigma>) \<le> Gets (fst \<sigma>') \<and> Hits (fst \<sigma>) \<le> Hits (fst \<sigma>') \<and>
         Errors (fst \<sigma>) \<le> Errors (fst \<sigma>')"
proof -
  from assms(2) have "n < 2 ^ 64" by simp
  from reach_bounds[OF assms(1) this] assms(2)
  have "unat (Gets (fst \<sigma>)) < 2 ^ 64 - 1" "unat (Hits (fst \<sigma>)) < 2 ^ 64 - 1"
    "unat (Errors (fst \<sigma>)) < 2 ^ 64 - 1"
    by simp_all
  then have "Gets (fst \<sigma>) \<le> Gets (fst \<sigma>) + 1" "Hits (fst \<sigma>) \<le> Hits (fst \<sigma>) + 1"
    "Errors (fst \<sigma>) \<le> Errors (fst \<sigma>) + 1"
    by (simp_all add: unat_inc_le)
  with op_step_Stats[OF assms(3)] show ?thesis
    by (elim disjE) simp_all
qed

text \<open>
  A run of the mock driver: a miss, the caller reading the stream to its end, the close
  that stores the entry, and then \<open>n\<close> hits.
\<close>

lemma mock_reach_hits:
  "reach (mock_Driver [[VString ''a8m'']] None None withLog) (Suc (Suc n))
     (\<lparr>Gets = 1 + of_nat n, Hits = of_nat n, Errors = 0\<rparr>, mock_served n)"
proof (induction n)
  case 0
  let ?d = "mock_Driver [[VString ''a8m'']] None None withLog"
  let ?st = "\<lparr>Gets = 1, Hits = 0, Errors = 0 :: 64 word\<rparr>"
  have "reach ?d 0 (Stats_zero, mock_init)"
    by (rule reach_init)
  then have "reach ?d (Suc 0) (?st, mock_opened [[VString ''a8m'']])"
    by (rule reach_step) (rule step_Query, rule mock_Query_miss)
  then have "reach ?d (Suc 0) (?st, mock_opened [])"
    by (rule reach_world)
  moreover have "op_step ?d (?st, mock_opened []) (?st, mock_served 0)"
    by (rule step_Close[where r = "mock_recorder ?d [[VString ''a8m'']] True"
          and ctx = Background and opts = mock_opts and err = None])
       (simp_all add: mock_recorder_def mock_Close_stores [unfolded mock_recorder_def])
  ultimately have "reach ?d (Suc (Suc 0)) (?st, mock_served 0)"
    by (rule reach_step)
  then show ?case by simp
next
  case (Suc n)
  let ?d = "mock_Driver [[VString ''a8m'']] None None withLog"
  let ?st = "\<lparr>Gets = 1 + of_nat n, Hits = of_nat n, Errors = 0\<rparr>"
  have "op_step ?d (?st, mock_served n)
      (?st\<lparr>Gets := Gets ?st + 1, Hits := Hits ?st + 1\<rparr>, mock_served (Suc n))"
    by (rule step_Query) (rule mock_Query_hit)
  with Suc have "reach ?d (Suc (Suc (Suc n)))
      (?st\<lparr>Gets := Gets ?st + 1, Hits := Hits ?st + 1\<rparr>, mock_served (Suc n))"
    by (rule reach_step)
  then show ?case by (simp add: add.commute add.left_commute)
qed

text \<open>
  Claim C8 says that \<open>hits \<le> gets\<close> in every reachable state and that no counter ever
  decreases. The counters are \<open>uint64\<close> and \<open>atomic.AddUint64\<close> wraps around: after one
  miss, the close that stores its entry and \<open>2^64 - 1\<close> hits, \<open>Gets\<close> is back at 0 while
  \<open>Hits\<close> is \<open>2^64 - 1\<close>, and the last of these queries takes \<open>Gets\<close> from \<open>2^64 - 1\<close>
  down to 0.
\<close>

theorem Stats_wrap_counterexample:
  "reach (mock_Driver [[VString ''a8m'']] None None False) (2 ^ 64 + 1)
     (\<lparr>Gets = 0, Hits = - 1, Errors = 0\<rparr>, mock_served (2 ^ 64 - 1)) \<and>
   \<not> Hits \<lparr>Gets = 0, Hits = - 1, Errors = 0 :: 64 word\<rparr> \<le> Gets \<lparr>Gets = 0, Hits = - 1, Errors = 0 :: 64 word\<rparr> \<and>
   reach (mock_Driver [[VString ''a8m'']] None None False) (2 ^ 64)
     (\<lparr>Gets = - 1, Hits = - 2, Errors = 0\<rparr>, mock_served (2 ^ 64 - 2)) \<and>
   op_step (mock_Driver [[VString ''a8m'']] None None False)
     (\<lparr>Gets = - 1, Hits = - 2, Errors = 0\<rparr>, mock_served (2 ^ 64 - 2))
     (\<lparr>Gets = 0, Hits = - 1, Errors = 0\<rparr>, mock_served (2 ^ 64 - 1)) \<and>
   \<not> Gets \<lparr>Gets = - 1, Hits = - 2, Errors = 0 :: 64 word\<rparr> \<le> Gets \<lparr>Gets = 0, Hits = - 1, Errors = 0 :: 64 word\<rparr>"
proof -
  have a: "Suc (Suc (2 ^ 64 - 1)) = (2 ^ 64 + 1 :: nat)" by simp
  have b: "(of_nat (2 ^ 64 - 1) :: 64 word) = - 1" by simp
  have c: "Suc (Suc (2 ^ 64 - 2)) = (2 ^ 64 :: nat)" by simp
  have e: "(of_nat (2 ^ 64 - 2) :: 64 word) = - 2" by simp
  have f: "Suc (2 ^ 64 - 2) = (2 ^ 64 - 1 :: nat)" by simp
  have r1: "reach (mock_Driver [[VString ''a8m'']] None None False) (2 ^ 64 + 1)
     (\<lparr>Gets = 0, Hits = - 1, Errors = 0\<rparr>, mock_served (2 ^ 64 - 1))"
    using mock_reach_hits[of False "2 ^ 64 - 1"]
    unfolding a b by simp
  have r2: "reach (mock_Driver [[VString ''a8m'']] None None False) (2 ^ 64)
     (\<lparr>Gets = - 1, Hits = - 2, Errors = 0\<rparr>, mock_served (2 ^ 64 - 2))"
    using mock_reach_hits[of False "2 ^ 64 - 2"]
    unfolding c e by simp
  have s: "op_step (mock_Driver [[VString ''a8m'']] None None False)
     (\<lparr>Gets = - 1, Hits = - 2, Errors = 0\<rparr>, mock_served (2 ^ 64 - 2))
     (\<lparr>Gets = 0, Hits = - 1, Errors = 0\<rparr>, mock_served (2 ^ 64 - 1))"
    using step_Query[OF mock_Query_hit[of "[[VString ''a8m'']]" None False
        "\<lparr>Gets = - 1, Hits = - 2, Errors = 0\<rparr>" "2 ^ 64 - 2"]]
    unfolding f by simp
  from r1 r2 s show ?thesis by simp
qed

text \<open>
  Claim C8, amended. In every state a driver reaches by fewer than \<open>2^64\<close> operations
  (calls of \<open>Query\<close>, closes of its recorders) \<open>hits \<le> gets\<close>; each operation that keeps
  their number below \<open>2^64\<close> leaves none of \<open>gets\<close>, \<open>hits\<close>, \<open>errors\<close> smaller; and every
  operation leaves each counter as it was or adds one to it modulo \<open>2^64\<close>, \<open>hits\<close>
  only together with \<open>gets\<close>.
\<close>

theorem Stats_invariants:
  "(reach d n \<sigma> \<and> n < 2 ^ 64 \<longrightarrow> Hits (fst \<sigma>) \<le> Gets (fst \<sigma>)) \<and>
   (reach d n \<sigma> \<and> Suc n < 2 ^ 64 \<and> op_step d \<sigma> \<sigma>' \<longrightarrow>
      Gets (fst \<sigma>) \<le> Gets (fst \<sigma>') \<and> Hits (fst \<sigma>) \<le> Hits (fst \<sigma>') \<and>
      Errors (fst \<sigma>) \<le> Errors (fst \<sigma>')) \<and>
   (op_step d \<sigma> \<sigma>' \<longrightarrow>
      (Gets (fst \<sigma>') = Gets (fst \<sigma>) \<or> Gets (fst \<sigma>') = Gets (fst \<sigma>) + 1) \<and>
      (Hits (fst \<sigma>') = Hits (fst \<sigma>) \<or>
         Hits (fst \<sigma>') = Hits (fst \<sigma>) + 1 \<and> Gets (fst \<sigma>') = Gets (fst \<sigma>) + 1) \<and>
      (Errors (fst \<sigma>') = Errors (fst \<sigma>) \<or> Errors (fst \<sigma>') = Errors (fst \<sigma>) + 1))"
proof (intro conjI impI)
  assume "reach d n \<sigma> \<and> n < 2 ^ 64"
  then have "unat (Hits (fst \<sigma>)) \<le> unat (Gets (fst \<sigma>))"
    using reach_bounds by blast
  then show "Hits (fst \<sigma>) \<le> Gets (fst \<sigma>)"
    by (simp add: word_le_nat_alt)
next
  assume a: "reach d n \<sigma> \<and> Suc n < 2 ^ 64 \<and> op_step d \<sigma> \<sigma>'"
  then have m: "Gets (fst \<sigma>) \<le> Gets (fst \<sigma>') \<and> Hits (fst \<sigma>) \<le> Hits (fst \<sigma>') \<and>
         Errors (fst \<sigma>) \<le> Errors (fst \<sigma>')"
    using op_step_monotone by blast
  from m show "Gets (fst \<sigma>) \<le> Gets (fst \<sigma>')" by simp
  from m show "Hits (fst \<sigma>) \<le> Hits (fst \<sigma>')" by simp
  from m show "Errors (fst \<sigma>) \<le> Errors (fst \<sigma>')" by simp
next
  assume "op_step d \<sigma> \<sigma>'"
  from op_step_Stats[OF this]
  show "Gets (fst \<sigma>') = Gets (fst \<sigma>) \<or> Gets (fst \<sigma>') = Gets (fst \<sigma>) + 1"
    by (elim disjE) simp_all
next
  assume "op_step d \<sigma> \<sigma>'"
  from op_step_Stats[OF this]
  show "Hits (fst \<sigma>') = Hits (fst \<sigma>) \<or>
         Hits (fst \<sigma>') = Hits (fst \<sigma>) + 1 \<and> Gets (fst \<sigma>') = Gets (fst \<sigma>) + 1"
    by (elim disjE) simp_all
next
  assume "op_step d \<sigma> \<sigma>'"
  from op_step_Stats[OF this]
  show "Errors (fst \<sigma>') = Errors (fst \<sigma>) \<or> Errors (fst \<sigma>') = Errors (fst \<sigma>) + 1"
    by (elim disjE) simp_all
qed

text \<open>
  The theorem on the mock world: the state after a miss and the close that stores its
  entry, and the hit that follows.
\<close>

theorem Stats_invariants_witness:
  "Hits (fst mock_counted) \<le> Gets (fst mock_counted) \<and>
   Gets (fst mock_counted) \<le> Gets (fst mock_counted') \<and>
   Hits (fst mock_counted) \<le> Hits (fst mock_counted') \<and>
   Errors (fst mock_counted) \<le> Errors (fst mock_counted') \<and>
   (Gets (fst mock_counted') = Gets (fst mock_counted) \<or>
    Gets (fst mock_counted') = Gets (fst mock_counted) + 1) \<and>
   (Hits (fst mock_counted') = Hits (fst mock_counted) \<or>
    Hits (fst mock_counted') = Hits (fst mock_counted) + 1 \<and>
    Gets (fst mock_counted') = Gets (fst mock_counted) + 1) \<and>
   (Errors (fst mock_counted') = Errors (fst mock_counted) \<or>
    Errors (fst mock_counted') = Errors (fst mock_counted) + 1)"
proof -
  let ?d = "mock_Driver [[VString ''a8m'']] None None False"
  have r: "reach ?d (Suc (Suc 0)) mock_counted"
    using mock_reach_hits[of False 0]
    by (simp add: mock_counted_def)
  have s: "op_step ?d mock_counted mock_counted'"
    using step_Query[OF mock_Query_hit[of "[[VString ''a8m'']]" None False
        "\<lparr>Gets = 1, Hits = 0, Errors = 0\<rparr>" 0]]
    by (simp add: mock_counted_def mock_counted'_def)
  have n: "Suc (Suc 0) < 2 ^ 64" "Suc (Suc (Suc 0)) < 2 ^ 64"
    by simp_all
  from Stats_invariants [where d = ?d and n = "Suc (Suc 0)" and \<sigma> = mock_counted and \<sigma>' = mock_counted']
    r s n
  show ?thesis by (simp only: simp_thms)
qed

section \<open>The entry codec: properties\<close>

lemma unat_of_nat_byte: "n < 256 \<Longrightarrow> unat (of_nat n :: 8 word) = n"
  by (simp add: unat_of_nat)

lemma dec_enc_nat: "dec_nat (enc_nat n @ rest) = Some (n, rest)"
proof (induction n rule: enc_nat.induct)
  case (1 n)
  show ?case
  proof (cases "n < 128")
    case True
    then show ?thesis
      by (subst enc_nat.simps) (simp add: unat_of_nat_byte)
  next
    case False
    have "128 + n mod 128 < 256" by simp
    then have u: "unat (of_nat (128 + n mod 128) :: 8 word) = 128 + n mod 128"
      by (rule unat_of_nat_byte)
    from False 1 have "dec_nat (enc_nat (n div 128) @ rest) = Some (n div 128, rest)"
      by simp
    with False u show ?thesis
      by (subst enc_nat.simps) simp
  qed
qed

lemma dec_enc_bytes: "dec_bytes (enc_bytes bs @ rest) = Some (bs, rest)"
  by (simp add: dec_bytes_def enc_bytes_def dec_enc_nat)

lemma char_of_byte_of_char: "char_of (unat (of_nat (of_char c) :: 8 word)) = c"
proof -
  have "(of_char c :: nat) < 256"
    by (metis of_char_mod_256 mod_less_divisor zero_less_numeral)
  then have "unat (of_nat (of_char c) :: 8 word) = of_char c"
    by (rule unat_of_nat_byte)
  then show ?thesis by simp
qed

lemma dec_enc_string: "dec_string (enc_string str @ rest) = Some (str, rest)"
  by (simp add: dec_string_def enc_string_def dec_enc_bytes comp_def char_of_byte_of_char)

lemma dec_enc_word64: "dec_word64 (enc_word64 w @ rest) = Some (w, rest)"
  by (simp add: dec_word64_def enc_word64_def dec_enc_nat)

lemma dec_enc_int: "dec_int (enc_int i @ rest) = Some (i, rest)"
  by (simp add: enc_int_def dec_enc_nat)

lemma dec_enc_value: "dec_value (enc_value v @ rest) = Some (v, rest)"
  by (cases v) (simp_all add: dec_enc_word64 dec_enc_bytes dec_enc_string dec_enc_int)

lemma dec_many_enc:
  assumes "\<And>x rest. x \<in> set xs \<Longrightarrow> dec (enc x @ rest) = Some (x, rest)"
  shows "dec_many dec (length xs) (concat (map enc xs) @ rest) = Some (xs, rest)"
  using assms by (induction xs) simp_all

lemma dec_enc_list:
  assumes "\<And>x rest. x \<in> set xs \<Longrightarrow> dec (enc x @ rest) = Some (x, rest)"
  shows "dec_list dec (enc_list enc xs @ rest) = Some (xs, rest)"
  using dec_many_enc[of xs dec enc rest] assms
  by (simp add: dec_list_def enc_list_def dec_enc_nat)

lemma dec_enc_entry: "dec_entry (enc_entry p @ rest) = Some (p, rest)"
proof -
  have c: "dec_list dec_string (enc_list enc_string (fst p) @ rest') = Some (fst p, rest')" for rest'
    by (rule dec_enc_list) (rule dec_enc_string)
  have row: "dec_list dec_value (enc_list enc_value r @ rest') = Some (r, rest')" for r rest'
    by (rule dec_enc_list) (rule dec_enc_value)
  have v: "dec_list (dec_list dec_value) (enc_list (enc_list enc_value) (snd p) @ rest') =
      Some (snd p, rest')" for rest'
    by (rule dec_enc_list) (rule row)
  show ?thesis
    by (simp add: dec_entry_def enc_entry_def c v)
qed

text \<open>
  Claim C9. The entry codec round-trips: for every entry (columns, and rows of scalars of
  any of the supported dynamic types), \<open>MarshalBinary\<close> succeeds and \<open>UnmarshalBinary\<close>
  of its bytes yields the entry itself: the same columns in the same order, the same
  rows in the same order, each scalar with its dynamic type and value. The encoder is
  the one modelled from the spec.
\<close>

theorem Entry_codec_round_trip:
  "MarshalBinary gob_spec e = Inr (enc_entry (Columns e, Values e)) \<and>
   UnmarshalBinary gob_spec (enc_entry (Columns e, Values e)) = Inr e"
proof -
  have "dec_entry (enc_entry (Columns e, Values e)) = Some ((Columns e, Values e), [])"
    using dec_enc_entry[of "(Columns e, Values e)" "[]"] by simp
  then show ?thesis
    by (simp add: MarshalBinary_def UnmarshalBinary_def gob_spec_def)
qed

text \<open>The bytes of a small entry with an integer, a null, a bool and a byte string.\<close>

lemma Entry_codec_example:
  "MarshalBinary gob_spec \<lparr>Columns = [''id''], Values = [[VInt64 1, VNil], [VBool True, VBytes [7]]]\<rparr> =
     Inr [1, 2, 105, 100, 2, 2, 1, 1, 0, 2, 3, 1, 4, 1, 7]"
  by (simp add: MarshalBinary_def gob_spec_def enc_entry_def enc_list_def enc_string_def
      enc_bytes_def enc_word64_def enc_nat.simps)

section \<open>The default hasher: properties\<close>

lemma fold_unordered_mset:
  assumes "mset hs = mset hs'"
  shows "fold (\<lambda>kv acc. hashUpdateUnordered acc (hashUpdateOrdered (fst kv) (snd kv))) hs z =
         fold (\<lambda>kv acc. hashUpdateUnordered acc (hashUpdateOrdered (fst kv) (snd kv))) hs' z"
proof -
  have "fold (\<lambda>kv acc. hashUpdateUnordered acc (hashUpdateOrdered (fst kv) (snd kv))) hs =
        fold (\<lambda>kv acc. hashUpdateUnordered acc (hashUpdateOrdered (fst kv) (snd kv))) hs'"
    by (rule fold_multiset_equiv)
       (auto simp: hashUpdateUnordered_def fun_eq_iff xor.assoc xor.left_commute xor.commute assms)
  then show ?thesis by simp
qed

lemma same_value_hash_supported:
  "same_value a b \<Longrightarrow> hash_any a = hash_any b \<and> supported a = supported b"
proof (induction rule: same_value.induct)
  case (same_Scalar v)
  show ?case by simp
next
  case (same_Slice xs ys)
  then have "list_all2 (\<lambda>x y. hash_any x = hash_any y \<and> supported x = supported y) xs ys"
    by (simp add: list_all2_conv_all_nth)
  then have "map hash_any xs = map hash_any ys \<and> map supported xs = map supported ys"
    by (induction rule: list_all2_induct) simp_all
  then show ?case by simp
next
  case (same_Map es fs gs)
  then have "list_all2 (\<lambda>x y. map_prod hash_any hash_any x = map_prod hash_any hash_any y \<and>
      map_prod supported supported x = map_prod supported supported y) es fs"
    by (auto simp: list_all2_conv_all_nth rel_prod_sel prod_eq_iff)
  then have eq: "map (map_prod hash_any hash_any) es = map (map_prod hash_any hash_any) fs \<and>
      map (map_prod supported supported) es = map (map_prod supported supported) fs"
    by (induction rule: list_all2_induct) simp_all
  from same_Map have "mset fs = mset gs" by simp
  then have m: "mset (map (map_prod hash_any hash_any) fs) =
      mset (map (map_prod hash_any hash_any) gs)"
    and s: "set (map (map_prod supported supported) fs) = set (map (map_prod supported supported) gs)"
    by (metis mset_map, metis mset_eq_setD set_map)
  from fold_unordered_mset[OF m] eq
  have h: "hash_any (Map es) = hash_any (Map gs)" by simp
  from s eq have "supported (Map es) = supported (Map gs)"
    by (simp add: list_all_iff)
  with h show ?case by simp
next
  case same_Unhashable
  show ?case by simp
qed

text \<open>
  Claim C7. The default hasher is deterministic: two calls of \<open>DefaultHash\<close> with the
  same statement text and the same argument values return the same result (the same key,
  or the same error), also when a map among the arguments is iterated in a different
  order in the second call. \<open>DefaultHash\<close> has no argument but the text and the values.
  The hasher is the one modelled from the spec.
\<close>

theorem DefaultHash_deterministic:
  "query = query' \<and> list_all2 same_value args args' \<longrightarrow>
     DefaultHash query args = DefaultHash query' args'"
proof
  assume a: "query = query' \<and> list_all2 same_value args args'"
  then have "same_value (Slice args) (Slice args')"
    by (simp add: same_Slice)
  then have "hash_any (Slice args) = hash_any (Slice args') \<and>
      supported (Slice args) = supported (Slice args')"
    by (rule same_value_hash_supported)
  with a show "DefaultHash query args = DefaultHash query' args'"
    by (simp add: DefaultHash_def hashstructure_Hash_def del: hash_any.simps supported.simps)
qed

text \<open>Two calls whose map argument is iterated in opposite orders.\<close>

theorem DefaultHash_deterministic_witness:
  "DefaultHash ''SELECT name FROM users''
     [Scalar (VInt64 7),
      Map [(Scalar (VString ''a''), Scalar (VInt64 1)), (Scalar (VString ''b''), Scalar (VInt64 2))]] =
   DefaultHash ''SELECT name FROM users''
     [Scalar (VInt64 7),
      Map [(Scalar (VString ''b''), Scalar (VInt64 2)), (Scalar (VString ''a''), Scalar (VInt64 1))]]"
proof -
  let ?a = "(Scalar (VString ''a''), Scalar (VInt64 1))"
  let ?b = "(Scalar (VString ''b''), Scalar (VInt64 2))"
  have "list_all2 (rel_prod same_value same_value) [?a, ?b] [?a, ?b]"
    by (simp add: same_Scalar)
  moreover have "mset [?a, ?b] = mset [?b, ?a]"
    by simp
  ultimately have "same_value (Map [?a, ?b]) (Map [?b, ?a])"
    by (rule same_Map)
  then have "list_all2 same_value [Scalar (VInt64 7), Map [?a, ?b]] [Scalar (VInt64 7), Map [?b, ?a]]"
    by (simp add: same_Scalar)
  with DefaultHash_deterministic [where query = "''SELECT name FROM users''"
      and query' = "''SELECT name FROM users''"
      and args = "[Scalar (VInt64 7), Map [?a, ?b]]" and args' = "[Scalar (VInt64 7), Map [?b, ?a]]"]
  show ?thesis by blast
qed

end
